theory Spec2Isabelle
  imports
    Main
    "HOL-Library.Word"
    "HOL-Library.Log_Nat"
    "HOL-Library.List_Lexorder"
    "HOL-Library.Multiset"
begin

unbundle bit_operations_syntax

section \<open>JavaScript values\<close>

text \<open>
  A JavaScript string is a sequence of UTF-16 code units; a binary string is one whose
  code units are all below 256.  Code units are natural numbers here, so that
  \<open>charCodeAt\<close>, \<open>String.fromCharCode\<close>, \<open>length\<close>, \<open>slice\<close> and \<open>+\<close> are
  list operations.  With \<open>HOL-Library.List_Lexorder\<close> the order on such lists is the
  order \<open>Array.prototype.sort\<close> uses by default (code unit by code unit, a proper
  prefix first).
\<close>

type_synonym jsstring = "nat list"

definition ascii :: "string \<Rightarrow> jsstring" where
  "ascii s = map of_char s"

definition isBinary :: "jsstring \<Rightarrow> bool" where
  "isBinary s = list_all (\<lambda>c. c < 256) s"

text \<open>Dynamically typed values, for the places where the source tests a value with
  \<open>===\<close>, \<open>||\<close> or \<open>if (v)\<close> without knowing its type.\<close>

datatype jsval =
    JUndefined
  | JNull
  | JBool bool
  | JNum int
  | JStr jsstring
  | JArr "jsval list"

fun truthy :: "jsval \<Rightarrow> bool" where
  "truthy JUndefined = False"
| "truthy JNull = False"
| "truthy (JBool b) = b"
| "truthy (JNum n) = (n \<noteq> 0)"
| "truthy (JStr s) = (s \<noteq> [])"
| "truthy (JArr xs) = True"

text \<open>\<open>a || b\<close>\<close>

definition js_or :: "jsval \<Rightarrow> jsval \<Rightarrow> jsval" where
  "js_or a b = (if truthy a then a else b)"

text \<open>Everything the modelled code can throw.  \<open>_assert\<close> comes from
  \<open>mpenc/helper/assert\<close>, which throws when its condition is falsy.\<close>

datatype error =
    Error string
  | AssertionError string
  | DecryptVerifyError string
  | InvalidCharacterError
  | URIError
  | RangeError
  | TypeError string

text \<open>Sequencing of calls that may throw.\<close>

definition ebind :: "error + 'a \<Rightarrow> ('a \<Rightarrow> error + 'b) \<Rightarrow> error + 'b" where
  "ebind r f = (case r of Inl e \<Rightarrow> Inl e | Inr x \<Rightarrow> f x)"

text \<open>\<open>_assert(cond, message)\<close>\<close>

definition assert :: "bool \<Rightarrow> string \<Rightarrow> error + unit" where
  "assert cond msg = (if cond then Inr () else Inl (AssertionError msg))"

text \<open>A mutating method that may throw, used where the exception ends the call.\<close>

definition mutate :: "error option \<times> 'a \<Rightarrow> error + 'a" where
  "mutate r = (case r of (None, x) \<Rightarrow> Inr x | (Some e, x) \<Rightarrow> Inl e)"

text \<open>\<open>s || null\<close> for a string that may be \<open>null\<close>: the empty string is falsy.\<close>

definition strOrNull :: "jsstring option \<Rightarrow> jsstring option" where
  "strOrNull s = (case s of None \<Rightarrow> None | Some v \<Rightarrow> if v = [] then None else Some v)"

section \<open>Greet types (greeter.js, codec.js)\<close>

definition AUX_BIT :: int where "AUX_BIT = 0"
definition DOWN_BIT :: int where "DOWN_BIT = 1"
definition GKA_BIT :: int where "GKA_BIT = 2"
definition SKE_BIT :: int where "SKE_BIT = 3"
definition OP_BITS :: int where "OP_BITS = 4"
definition INIT_BIT :: int where "INIT_BIT = 7"
definition RECOVER_BIT :: int where "RECOVER_BIT = 8"

text \<open>\<open>ns.GREET_TYPE\<close> of greeter.js, in declaration order.\<close>

definition GREET_TYPE :: "(string \<times> jsstring) list" where
  "GREET_TYPE =
    [(''INIT_INITIATOR_UP'', [0x00, 0x9c]),
     (''INIT_PARTICIPANT_UP'', [0x00, 0x1c]),
     (''INIT_PARTICIPANT_DOWN'', [0x00, 0x1e]),
     (''INIT_PARTICIPANT_CONFIRM_DOWN'', [0x00, 0x1a]),
     (''INCLUDE_AUX_INITIATOR_UP'', [0x00, 0xad]),
     (''INCLUDE_AUX_PARTICIPANT_UP'', [0x00, 0x2d]),
     (''INCLUDE_AUX_PARTICIPANT_DOWN'', [0x00, 0x2f]),
     (''INCLUDE_AUX_PARTICIPANT_CONFIRM_DOWN'', [0x00, 0x2b]),
     (''EXCLUDE_AUX_INITIATOR_DOWN'', [0x00, 0xbf]),
     (''EXCLUDE_AUX_PARTICIPANT_CONFIRM_DOWN'', [0x00, 0x3b]),
     (''REFRESH_AUX_INITIATOR_DOWN'', [0x00, 0xc7]),
     (''REFRESH_AUX_PARTICIPANT_DOWN'', [0x00, 0x47]),
     (''QUIT_DOWN'', [0x00, 0xd3])]"

text \<open>\<open>ns.GREET_TYPE\<close> of codec.js, which also lists the data type and the recovery
  variants.\<close>

definition codec_GREET_TYPE :: "(string \<times> jsstring) list" where
  "codec_GREET_TYPE =
    [(''PARTICIPANT_DATA'', [0x00, 0x00]),
     (''INIT_INITIATOR_UP'', [0x00, 0x9c]),
     (''INIT_PARTICIPANT_UP'', [0x00, 0x1c]),
     (''INIT_PARTICIPANT_DOWN'', [0x00, 0x1e]),
     (''INIT_PARTICIPANT_CONFIRM_DOWN'', [0x00, 0x1a]),
     (''RECOVER_INIT_INITIATOR_UP'', [0x01, 0x9c]),
     (''RECOVER_INIT_PARTICIPANT_UP'', [0x01, 0x1c]),
     (''RECOVER_INIT_PARTICIPANT_DOWN'', [0x01, 0x1e]),
     (''RECOVER_INIT_PARTICIPANT_CONFIRM_DOWN'', [0x01, 0x1a]),
     (''INCLUDE_AUX_INITIATOR_UP'', [0x00, 0xad]),
     (''INCLUDE_AUX_PARTICIPANT_UP'', [0x00, 0x2d]),
     (''INCLUDE_AUX_PARTICIPANT_DOWN'', [0x00, 0x2f]),
     (''INCLUDE_AUX_PARTICIPANT_CONFIRM_DOWN'', [0x00, 0x2b]),
     (''EXCLUDE_AUX_INITIATOR_DOWN'', [0x00, 0xbf]),
     (''EXCLUDE_AUX_PARTICIPANT_CONFIRM_DOWN'', [0x00, 0x3b]),
     (''RECOVER_EXCLUDE_AUX_INITIATOR_DOWN'', [0x01, 0xbf]),
     (''RECOVER_EXCLUDE_AUX_PARTICIPANT_CONFIRM_DOWN'', [0x01, 0x3b]),
     (''REFRESH_AUX_INITIATOR_DOWN'', [0x00, 0xc7]),
     (''REFRESH_AUX_PARTICIPANT_DOWN'', [0x00, 0x47]),
     (''RECOVER_REFRESH_AUX_INITIATOR_DOWN'', [0x01, 0xc7]),
     (''RECOVER_REFRESH_AUX_PARTICIPANT_DOWN'', [0x01, 0x47]),
     (''QUIT_DOWN'', [0x00, 0xd3])]"

text \<open>The reverse mapping is filled by a loop over the property names:
  \<open>MAPPING[TYPE[propName]] = propName\<close>.\<close>

definition reverseMapping :: "(string \<times> jsstring) list \<Rightarrow> (jsstring \<rightharpoonup> string)" where
  "reverseMapping tbl = fold (\<lambda>(propName, v) m. m(v \<mapsto> propName)) tbl Map.empty"

definition GREET_TYPE_MAPPING :: "jsstring \<rightharpoonup> string" where
  "GREET_TYPE_MAPPING = reverseMapping GREET_TYPE"

definition codec_GREET_TYPE_MAPPING :: "jsstring \<rightharpoonup> string" where
  "codec_GREET_TYPE_MAPPING = reverseMapping codec_GREET_TYPE"

text \<open>\<open>s.charCodeAt(i)\<close> used as an operand of a bitwise operator: out of range it is
  \<open>NaN\<close>, which \<open>ToInt32\<close> turns into 0.\<close>

definition charCodeAt32 :: "jsstring \<Rightarrow> nat \<Rightarrow> 32 word" where
  "charCodeAt32 s i = (if i < length s then of_nat (s ! i) else 0)"

definition greetTypeToNumber :: "jsstring \<Rightarrow> 32 word" where
  "greetTypeToNumber typeString =
     push_bit 8 (charCodeAt32 typeString 0) OR charCodeAt32 typeString 1"

text \<open>\<open>String.fromCharCode\<close> reduces its argument modulo \<open>2^16\<close>; \<open>>>>\<close> is the
  unsigned shift.\<close>

definition fromCharCode :: "nat \<Rightarrow> jsstring" where
  "fromCharCode n = [n mod 65536]"

definition greetTypeFromNumber :: "32 word \<Rightarrow> jsstring" where
  "greetTypeFromNumber typeNumber =
     fromCharCode (unat (drop_bit 8 typeNumber)) @ fromCharCode (unat (typeNumber AND 0xff))"

text \<open>\<open>1 << bit\<close>: the shift count is taken modulo 32, the result is a 32-bit integer.\<close>

definition shl1 :: "int \<Rightarrow> 32 word" where
  "shl1 bitNo = push_bit (nat (bitNo mod 32)) 1"

definition isBitSetOnGreetType :: "jsstring \<Rightarrow> int \<Rightarrow> bool" where
  "isBitSetOnGreetType greetType bitNo = (sint (greetTypeToNumber greetType AND shl1 bitNo) > 0)"

section \<open>GreetMessage\<close>

record GreetingMetadata =
  prevPf :: jsstring
  prevCh :: jsstring
  author :: jsstring
  parents :: "jsstring list"

record GreetMessage =
  source :: jsstring
  dest :: jsstring
  greetType :: "jsstring option"
  sidkeyHint :: "jsstring option"
  members :: "jsstring list option"
  intKeys :: "jsstring list option"
  nonces :: "jsstring list option"
  pubKeys :: "jsstring list option"
  sessionSignature :: "jsstring option"
  signingKey :: "jsstring option"
  signature :: "jsstring option"
  signatureOk :: bool
  rawMessage :: "jsstring option"
  data :: "jsstring option"
  metadata :: "GreetingMetadata option"

text \<open>\<open>new GreetMessage()\<close>\<close>

definition new_GreetMessage :: GreetMessage where
  "new_GreetMessage =
     \<lparr>source = [], dest = [], greetType = None, sidkeyHint = None, members = Some [],
      intKeys = Some [], nonces = Some [], pubKeys = Some [], sessionSignature = None,
      signingKey = None, signature = None, signatureOk = False, rawMessage = None,
      data = None, metadata = None\<rparr>"

text \<open>
  \<open>_setBit(bit, value, noMessageCheck)\<close>, the same text in \<open>GreetMessage\<close> (greeter.js)
  and \<open>ProtocolMessage\<close> (codec.js), each against the mapping of its own module.  The
  method mutates the message or throws; the model returns the exception, if any, together
  with the message as it is afterwards.  A \<open>null\<close> greet type makes \<open>charCodeAt\<close>
  throw a \<open>TypeError\<close>.
\<close>

definition setBit_in ::
  "(jsstring \<rightharpoonup> string) \<Rightarrow> int \<Rightarrow> jsval \<Rightarrow> jsval \<Rightarrow> GreetMessage
     \<Rightarrow> error option \<times> GreetMessage" where
  "setBit_in mapping bitNo val noMessageCheck m =
     (case greetType m of
        None \<Rightarrow> (Some (TypeError ''charCodeAt of null''), m)
      | Some t \<Rightarrow>
          let newGreetTypeNum = greetTypeToNumber t in
          if val = JBool True \<or> val = JNum 1 then
            (let newGreetType = greetTypeFromNumber (newGreetTypeNum OR shl1 bitNo) in
             if mapping newGreetType = None then
               (if noMessageCheck \<noteq> JBool True \<and> noMessageCheck \<noteq> JNum 1
                then (Some (Error ''Illegal message type!''), m)
                else (None, m\<lparr>greetType := Some newGreetType\<rparr>))
             else (None, m\<lparr>greetType := Some newGreetType\<rparr>))
          else if val = JNum 0 \<or> val = JBool False then
            (let newGreetType = greetTypeFromNumber
                   (newGreetTypeNum AND word_of_int (0xffff - sint (shl1 bitNo))) in
             if mapping newGreetType = None then
               (if noMessageCheck \<noteq> JBool True \<and> noMessageCheck \<noteq> JNum 1
                then (Some (Error ''Illegal message type!''), m)
                else (None, m\<lparr>greetType := Some newGreetType\<rparr>))
             else (None, m\<lparr>greetType := Some newGreetType\<rparr>))
          else (Some (Error ''Illegal value for set/clear bit operation.''), m))"

definition GreetMessage_setBit ::
  "int \<Rightarrow> jsval \<Rightarrow> jsval \<Rightarrow> GreetMessage \<Rightarrow> error option \<times> GreetMessage" where
  "GreetMessage_setBit = setBit_in GREET_TYPE_MAPPING"

definition ProtocolMessage_setBit ::
  "int \<Rightarrow> jsval \<Rightarrow> jsval \<Rightarrow> GreetMessage \<Rightarrow> error option \<times> GreetMessage" where
  "ProtocolMessage_setBit = setBit_in codec_GREET_TYPE_MAPPING"

text \<open>The greet type \<open>_setBit\<close> computes, whether or not it is then stored.\<close>

definition setBit_result :: "jsstring \<Rightarrow> int \<Rightarrow> bool \<Rightarrow> jsstring" where
  "setBit_result t bitNo b =
     (if b then greetTypeFromNumber (greetTypeToNumber t OR shl1 bitNo)
      else greetTypeFromNumber (greetTypeToNumber t AND word_of_int (0xffff - sint (shl1 bitNo))))"

definition enumerated :: "(string \<times> jsstring) list \<Rightarrow> jsstring set" where
  "enumerated tbl = snd ` set tbl"

section \<open>The Greeting state machine (greeter.js)\<close>

text \<open>\<open>_readBit\<close> goes through \<open>_isBitSetOnGreetType\<close>, which converts only a string;
  a \<open>null\<close> greet type is used as the number 0.\<close>

definition readBit :: "GreetMessage \<Rightarrow> int \<Rightarrow> bool" where
  "readBit m bitNo =
     (case greetType m of None \<Rightarrow> False | Some t \<Rightarrow> isBitSetOnGreetType t bitNo)"

definition isAuxiliary :: "GreetMessage \<Rightarrow> bool" where
  "isAuxiliary m = readBit m AUX_BIT"

definition isDownflow :: "GreetMessage \<Rightarrow> bool" where
  "isDownflow m = readBit m DOWN_BIT"

definition isGKA :: "GreetMessage \<Rightarrow> bool" where
  "isGKA m = readBit m GKA_BIT"

definition isSKE :: "GreetMessage \<Rightarrow> bool" where
  "isSKE m = readBit m SKE_BIT"

definition setDownflow :: "jsval \<Rightarrow> GreetMessage \<Rightarrow> error option \<times> GreetMessage" where
  "setDownflow noMessageCheck = GreetMessage_setBit DOWN_BIT (JBool True) noMessageCheck"

definition clearGKA :: "jsval \<Rightarrow> GreetMessage \<Rightarrow> error option \<times> GreetMessage" where
  "clearGKA noMessageCheck = GreetMessage_setBit GKA_BIT (JBool False) noMessageCheck"

definition clearInitiator :: "jsval \<Rightarrow> GreetMessage \<Rightarrow> error option \<times> GreetMessage" where
  "clearInitiator noMessageCheck = GreetMessage_setBit INIT_BIT (JBool False) noMessageCheck"

text \<open>\<open>ns.OPERATION_MAPPING\<close>, indexed by the operation code.\<close>

definition OPERATION_MAPPING :: "nat \<Rightarrow> string option" where
  "OPERATION_MAPPING n =
     (if n < 6 then Some ([''DATA'', ''START'', ''INCLUDE'', ''EXCLUDE'', ''REFRESH'', ''QUIT''] ! n)
      else None)"

text \<open>\<open>getOperation\<close> reads the greet type with \<open>charCodeAt\<close>, so it throws on
  \<open>null\<close>.\<close>

definition getOperation :: "GreetMessage \<Rightarrow> error + string option" where
  "getOperation m =
     (case greetType m of
        None \<Rightarrow> Inl (TypeError ''charCodeAt of null'')
      | Some t \<Rightarrow> Inr (OPERATION_MAPPING (unat (drop_bit 4 (greetTypeToNumber t AND 0x70)))))"

definition QUIT_DOWN :: jsstring where
  "QUIT_DOWN = [0x00, 0xd3]"

datatype STATE =
    NULL
  | INIT_UPFLOW
  | INIT_DOWNFLOW
  | READY
  | AUX_UPFLOW
  | AUX_DOWNFLOW
  | QUIT

fun STATE_code :: "STATE \<Rightarrow> int" where
  "STATE_code NULL = 0x00"
| "STATE_code INIT_UPFLOW = 0x01"
| "STATE_code INIT_DOWNFLOW = 0x02"
| "STATE_code READY = 0x03"
| "STATE_code AUX_UPFLOW = 0x04"
| "STATE_code AUX_DOWNFLOW = 0x05"
| "STATE_code QUIT = 0x06"

subsection \<open>The CLIQUES and ASKE members\<close>

text \<open>
  The messages of the two sub-protocols, with the fields \<open>_getCliquesMessage\<close>,
  \<open>_getAskeMessage\<close> and \<open>_mergeMessages\<close> read and write.  A field that may be
  \<open>null\<close> is an option.
\<close>

record CliquesMessage =
  cl_source :: jsstring
  cl_dest :: jsstring
  cl_agreement :: string
  cl_flow :: string
  cl_members :: "jsstring list option"
  cl_intKeys :: "jsstring list option"

record SignatureKeyExchangeMessage =
  ske_source :: jsstring
  ske_dest :: jsstring
  ske_flow :: string
  ske_members :: "jsstring list option"
  ske_nonces :: "jsstring list option"
  ske_pubKeys :: "jsstring list option"
  ske_sessionSignature :: "jsstring option"
  ske_signingKey :: "jsstring option"

text \<open>The member objects, with the fields the \<open>Greeting\<close> constructor fills in.\<close>

record CliquesMember =
  cq_id :: jsstring
  cq_members :: "jsstring list"
  cq_groupKey :: "jsstring option"
  cq_privKeyList :: "jsstring list"
  cq_intKeys :: "jsstring list"

record SignatureKeyExchangeMember =
  am_id :: jsstring
  am_members :: "jsstring list"
  am_sessionId :: "jsstring option"
  am_ephemeralPrivKey :: "jsstring option"
  am_ephemeralPubKey :: "jsstring option"
  am_nonce :: "jsstring option"
  am_ephemeralPubKeys :: "jsstring list option"
  am_nonces :: "jsstring list option"
  am_authenticatedMembers :: "jsstring list"

text \<open>
  The methods of the two members.  \<open>mpenc/greet/cliques\<close> and the \<open>mpenc/greet/ske\<close>
  that greeter.js is written against are not among the sources, so the methods are
  parameters of the state machine: each takes the member and returns the changed member
  with what the method returns, or the exception it throws.  What a method draws from
  the random source is part of the function chosen for it.
\<close>

record member_ops =
  ika :: "CliquesMember \<Rightarrow> jsstring list \<Rightarrow> error + CliquesMember \<times> CliquesMessage"
  cliques_upflow :: "CliquesMember \<Rightarrow> CliquesMessage \<Rightarrow> error + CliquesMember \<times> CliquesMessage"
  cliques_downflow :: "CliquesMember \<Rightarrow> CliquesMessage \<Rightarrow> error + CliquesMember"
  akaJoin :: "CliquesMember \<Rightarrow> jsstring list \<Rightarrow> error + CliquesMember \<times> CliquesMessage"
  akaExclude :: "CliquesMember \<Rightarrow> jsstring list \<Rightarrow> error + CliquesMember \<times> CliquesMessage"
  akaRefresh :: "CliquesMember \<Rightarrow> error + CliquesMember \<times> CliquesMessage"
  akaQuit :: "CliquesMember \<Rightarrow> error + CliquesMember"
  commit ::
    "SignatureKeyExchangeMember \<Rightarrow> jsstring list
       \<Rightarrow> error + SignatureKeyExchangeMember \<times> SignatureKeyExchangeMessage"
  aske_upflow ::
    "SignatureKeyExchangeMember \<Rightarrow> SignatureKeyExchangeMessage
       \<Rightarrow> error + SignatureKeyExchangeMember \<times> SignatureKeyExchangeMessage"
  aske_downflow ::
    "SignatureKeyExchangeMember \<Rightarrow> SignatureKeyExchangeMessage
       \<Rightarrow> error + SignatureKeyExchangeMember \<times> SignatureKeyExchangeMessage option"
  aske_join ::
    "SignatureKeyExchangeMember \<Rightarrow> jsstring list
       \<Rightarrow> error + SignatureKeyExchangeMember \<times> SignatureKeyExchangeMessage"
  aske_exclude ::
    "SignatureKeyExchangeMember \<Rightarrow> jsstring list
       \<Rightarrow> error + SignatureKeyExchangeMember \<times> SignatureKeyExchangeMessage"
  aske_quit ::
    "SignatureKeyExchangeMember
       \<Rightarrow> error + SignatureKeyExchangeMember \<times> SignatureKeyExchangeMessage"
  isSessionAcknowledged :: "SignatureKeyExchangeMember \<Rightarrow> bool"

subsection \<open>The Greeting object\<close>

text \<open>
  The fields of a \<open>Greeting\<close>: those its constructor sets, and \<open>sessionId\<close>,
  \<open>members\<close>, \<open>ephemeralPubKeys\<close>, \<open>groupKey\<close> and \<open>includeMembers\<close>, which the
  operations add (\<open>None\<close> while undefined).  The static keys are only handed on to the
  ASKE member.
\<close>

record Greeting =
  g_id :: jsstring
  g_opState :: STATE
  cliquesMember :: CliquesMember
  askeMember :: SignatureKeyExchangeMember
  g_metadata :: "GreetingMetadata option"
  g_sessionId :: "jsstring option option"
  g_members :: "jsstring list option"
  g_ephemeralPubKeys :: "jsstring list option option"
  g_groupKey :: "jsstring option option"
  g_includeMembers :: "jsstring list option"


definition mergeMessages ::
  "Greeting \<Rightarrow> CliquesMessage option \<Rightarrow> SignatureKeyExchangeMessage option
     \<Rightarrow> error + GreetMessage option" where
  "mergeMessages g cliquesMessage askeMessage =
     (if cliquesMessage = None \<and> askeMessage = None then Inr None
      else
        ebind (case (cliquesMessage, askeMessage) of
                 (Some c, Some a) \<Rightarrow>
                   ebind (assert (cl_source c = ske_source a)
                            ''Message source mismatch, this should not happen.'')
                     (\<lambda>_. assert (cl_dest c = ske_dest a)
                            ''Message destination mismatch, this should not happen.'')
               | _ \<Rightarrow> Inr ())
          (\<lambda>_. Inr (Some (new_GreetMessage
             \<lparr>source := g_id g,
              dest :=
                (case strOrNull (map_option cl_dest cliquesMessage) of
                   Some d \<Rightarrow> d
                 | None \<Rightarrow>
                     (case strOrNull (map_option ske_dest askeMessage) of
                        Some d \<Rightarrow> d
                      | None \<Rightarrow> [])),
              members :=
                (case Option.bind cliquesMessage cl_members of
                   Some ms \<Rightarrow> Some ms
                 | None \<Rightarrow> Option.bind askeMessage ske_members),
              intKeys := Option.bind cliquesMessage cl_intKeys,
              nonces := Option.bind askeMessage ske_nonces,
              pubKeys := Option.bind askeMessage ske_pubKeys,
              sessionSignature := strOrNull (Option.bind askeMessage ske_sessionSignature),
              signingKey := strOrNull (Option.bind askeMessage ske_signingKey)\<rparr>))))"

definition getCliquesMessage :: "Greeting \<Rightarrow> GreetMessage \<Rightarrow> error + CliquesMessage" where
  "getCliquesMessage g m =
     ebind (getOperation m)
       (\<lambda>operation. Inr
          \<lparr>cl_source = source m, cl_dest = dest m,
           cl_agreement = (if operation = Some ''START'' then ''ika'' else ''aka''),
           cl_flow = (if isDownflow m then ''down'' else ''up''),
           cl_members = members m, cl_intKeys = intKeys m\<rparr>)"

definition getAskeMessage :: "Greeting \<Rightarrow> GreetMessage \<Rightarrow> SignatureKeyExchangeMessage" where
  "getAskeMessage g m =
     \<lparr>ske_source = source m, ske_dest = dest m,
      ske_flow = (if isDownflow m then ''down'' else ''up''),
      ske_members = members m, ske_nonces = nonces m, ske_pubKeys = pubKeys m,
      ske_sessionSignature = sessionSignature m, ske_signingKey = signingKey m\<rparr>"

text \<open>What \<open>_processMessage\<close> returns when it does not return \<open>null\<close>.\<close>

record ProcessResult =
  decodedMessage :: "GreetMessage option"
  newState :: "STATE option"

text \<open>The update both \<open>exclude\<close> and \<open>_processMessage\<close> make once the session is
  acknowledged.\<close>

definition updateSession :: "Greeting \<Rightarrow> Greeting" where
  "updateSession g =
     g\<lparr>g_sessionId := Some (am_sessionId (askeMember g)),
       g_members := Some (am_members (askeMember g)),
       g_ephemeralPubKeys := Some (am_ephemeralPubKeys (askeMember g)),
       g_groupKey := Some (cq_groupKey (cliquesMember g))\<rparr>"

text \<open>The state a forwarded message leads to.\<close>

definition flowState :: "GreetMessage \<Rightarrow> STATE \<Rightarrow> STATE \<Rightarrow> STATE" where
  "flowState m aux init = (if isAuxiliary m then aux else init)"

text \<open>
  The branches of \<open>_processMessage\<close> for a downflow and for an upflow message: the
  Greeting afterwards, the outgoing message and the new state (\<open>None\<close> for \<open>null\<close>).
\<close>

definition processDownflow ::
  "member_ops \<Rightarrow> Greeting \<Rightarrow> GreetMessage \<Rightarrow> CliquesMessage \<Rightarrow> SignatureKeyExchangeMessage
     \<Rightarrow> error + Greeting \<times> GreetMessage option \<times> STATE option" where
  "processDownflow ops g m inCliquesMessage inAskeMessage =
     ebind (if isGKA m
            then ebind (cliques_downflow ops (cliquesMember g) inCliquesMessage)
                   (\<lambda>c. Inr (g\<lparr>cliquesMember := c\<rparr>))
            else Inr g)
       (\<lambda>g1.
     ebind (if isSKE m
            then ebind (aske_downflow ops (askeMember g1) inAskeMessage)
                   (\<lambda>(a, out). Inr (g1\<lparr>askeMember := a\<rparr>, out))
            else Inr (g1, None))
       (\<lambda>(g2, outAskeMessage).
     ebind (mergeMessages g2 None outAskeMessage)
       (\<lambda>merged.
     case merged of
       None \<Rightarrow> Inr (g2, None, None)
     | Some out0 \<Rightarrow>
         ebind (mutate (clearInitiator (JBool True) (out0\<lparr>greetType := greetType m\<rparr>)))
           (\<lambda>out1.
         ebind (mutate (clearGKA JUndefined out1))
           (\<lambda>out2.
         Inr (g2, Some out2, Some (flowState m AUX_DOWNFLOW INIT_DOWNFLOW)))))))"

definition processUpflow ::
  "member_ops \<Rightarrow> Greeting \<Rightarrow> GreetMessage \<Rightarrow> CliquesMessage \<Rightarrow> SignatureKeyExchangeMessage
     \<Rightarrow> error + Greeting \<times> GreetMessage option \<times> STATE option" where
  "processUpflow ops g m inCliquesMessage inAskeMessage =
     ebind (cliques_upflow ops (cliquesMember g) inCliquesMessage)
       (\<lambda>(c, outCliquesMessage).
     ebind (aske_upflow ops (askeMember g) inAskeMessage)
       (\<lambda>(a, outAskeMessage).
     let g2 = g\<lparr>cliquesMember := c, askeMember := a\<rparr> in
     ebind (mergeMessages g2 (Some outCliquesMessage) (Some outAskeMessage))
       (\<lambda>merged.
     case merged of
       None \<Rightarrow> Inl (TypeError ''outMessage is null'')
     | Some out0 \<Rightarrow>
         ebind (mutate (clearInitiator JUndefined (out0\<lparr>greetType := greetType m\<rparr>)))
           (\<lambda>out1.
         if dest out1 = [] then
           ebind (mutate (setDownflow JUndefined out1))
             (\<lambda>out2.
           Inr (g2, Some out2, Some (flowState m AUX_DOWNFLOW INIT_DOWNFLOW)))
         else Inr (g2, Some out1, Some (flowState m AUX_UPFLOW INIT_UPFLOW))))))"

text \<open>
  \<open>_processMessage(message)\<close>: the Greeting afterwards and the value returned
  (\<open>None\<close> for \<open>null\<close>), or the exception.
\<close>

definition processMessage ::
  "member_ops \<Rightarrow> Greeting \<Rightarrow> GreetMessage \<Rightarrow> error + Greeting \<times> ProcessResult option" where
  "processMessage ops g m =
     (if g_opState g = QUIT then Inr (g, None)
      else if (case members m of None \<Rightarrow> False
               | Some ms \<Rightarrow> length ms > 0 \<and> g_id g \<notin> set ms) then
        (if g_opState g \<noteq> QUIT
         then Inr (g, Some \<lparr>decodedMessage = None, newState = Some QUIT\<rparr>)
         else Inr (g, None))
      else if dest m \<noteq> [] \<and> dest m \<noteq> g_id g then Inr (g, None)
      else if source m = g_id g then Inr (g, None)
      else
        ebind (getCliquesMessage g m)
          (\<lambda>inCliquesMessage.
        let inAskeMessage = getAskeMessage g m in
        ebind (if greetType m = Some QUIT_DOWN then Inr (g, None, None)
               else if isDownflow m then processDownflow ops g m inCliquesMessage inAskeMessage
               else processUpflow ops g m inCliquesMessage inAskeMessage)
          (\<lambda>(g3, outMessage, newState0).
        if isSessionAcknowledged ops (askeMember g3)
        then Inr (updateSession g3,
                  Some \<lparr>decodedMessage = outMessage, newState = Some READY\<rparr>)
        else Inr (g3, Some \<lparr>decodedMessage = outMessage, newState = newState0\<rparr>))))"

text \<open>\<open>_updateOpState\<close>\<close>

definition updateOpState :: "STATE \<Rightarrow> Greeting \<Rightarrow> Greeting" where
  "updateOpState s g = g\<lparr>g_opState := s\<rparr>"

text \<open>
  What \<open>processIncoming\<close> does with the result of \<open>_processMessage\<close>: the message, if
  there is one, goes to \<open>_encodeAndPublish\<close> (the model returns it as the packet sent),
  and a truthy new state becomes the state of the Greeting.  \<open>STATE.NULL\<close> is 0, hence
  falsy.
\<close>

definition applyResult ::
  "Greeting \<times> ProcessResult option \<Rightarrow> Greeting \<times> GreetMessage option" where
  "applyResult r =
     (case r of
        (g, None) \<Rightarrow> (g, None)
      | (g, Some res) \<Rightarrow>
          ((case newState res of
              None \<Rightarrow> g
            | Some s \<Rightarrow> if STATE_code s \<noteq> 0 then updateOpState s g else g),
           decodedMessage res))"







section \<open>GreetStore and the result of a Greeting (greeter.js)\<close>

text \<open>
  The \<open>GreetStore\<close> constructor is untyped: it takes whatever it is called with, tests it
  with \<open>||\<close>, \<open>===\<close> and \<open>if\<close>, and stores it.  Its fields are therefore dynamic
  values.  \<open>pubKeyMap\<close> is the sequence of the assignments
  \<open>pubKeyMap[members[i]] = ephemeralPubKeys[i]\<close>, in order.
\<close>

record GreetStore =
  st_opState :: jsval
  st_members :: jsval
  st_sessionId :: jsval
  st_ephemeralPrivKey :: jsval
  st_ephemeralPubKey :: jsval
  st_nonce :: jsval
  st_ephemeralPubKeys :: jsval
  st_nonces :: jsval
  st_groupKey :: jsval
  st_privKeyList :: jsval
  st_intKeys :: jsval
  st_pubKeyMap :: "(jsval \<times> jsval) list"

text \<open>The \<open>i\<close>-th argument of a call: \<open>undefined\<close> when the caller passed fewer, and
  arguments beyond the parameters are never read.\<close>

definition arg :: "jsval list \<Rightarrow> nat \<Rightarrow> jsval" where
  "arg args i = (if i < length args then args ! i else JUndefined)"

text \<open>\<open>v.length\<close> for a value that is neither \<open>null\<close> nor \<open>undefined\<close>: numbers and
  booleans have no such property.\<close>

fun js_length :: "jsval \<Rightarrow> jsval" where
  "js_length (JStr s) = JNum (int (length s))"
| "js_length (JArr xs) = JNum (int (length xs))"
| "js_length v = JUndefined"

text \<open>\<open>v[i]\<close>\<close>

fun js_index :: "jsval \<Rightarrow> nat \<Rightarrow> jsval" where
  "js_index (JStr s) i = (if i < length s then JStr [s ! i] else JUndefined)"
| "js_index (JArr xs) i = (if i < length xs then xs ! i else JUndefined)"
| "js_index v i = JUndefined"

text \<open>The bound of \<open>for (var i = 0; i < members.length; i++)\<close>: the comparison with
  \<open>undefined\<close> is false.\<close>

fun loopBound :: "jsval \<Rightarrow> nat" where
  "loopBound (JNum n) = nat n"
| "loopBound v = 0"

text \<open>\<open>utils.clone\<close> (of \<open>mpenc/helper/utils\<close>) makes a deep copy; values have no
  identity here, so the copy is the value.\<close>

definition clone :: "jsval \<Rightarrow> jsval" where
  "clone v = v"

text \<open>
  \<open>new GreetStore(state, members, sessionId, ephemeralPrivKey, ephemeralPubKey, nonce,
  ephemeralPubKeys, nonces, groupKey, privKeyList, intKeys)\<close>, applied to the list of
  the arguments of the call.
\<close>

definition new_GreetStore :: "jsval list \<Rightarrow> error + GreetStore" where
  "new_GreetStore args =
     (let state = arg args 0; members = arg args 1; sessionId = arg args 2;
          ephemeralPrivKey = arg args 3; ephemeralPubKey = arg args 4; nonce = arg args 5;
          ephemeralPubKeys = arg args 6; nonces = arg args 7; groupKey = arg args 8;
          privKeyList = arg args 9; intKeys = arg args 10;
          opState = js_or state (JNum (STATE_code NULL))
      in
      ebind (assert (opState = JNum (STATE_code READY) \<or> opState = JNum (STATE_code NULL))
               ''tried to create a GreetStore on a state other than NULL or READY'')
        (\<lambda>_.
      ebind (if truthy members then
               ebind (assert (truthy ephemeralPubKeys)
                        ''ephemeral pubkeys null when members present.'')
                 (\<lambda>_.
               ebind (assert (js_length members = js_length ephemeralPubKeys)
                        ''Length of members/pub keys mismatch'')
                 (\<lambda>_.
               Inr (map (\<lambda>i. (js_index members i, js_index ephemeralPubKeys i))
                      [0 ..< loopBound (js_length members)])))
             else Inr [])
        (\<lambda>pubKeyMap.
      Inr \<lparr>st_opState = opState,
           st_members = js_or (clone members) (JArr []),
           st_sessionId = js_or (clone sessionId) JNull,
           st_ephemeralPrivKey = js_or (clone ephemeralPrivKey) JNull,
           st_ephemeralPubKey = js_or (clone ephemeralPubKey) JNull,
           st_nonce = js_or (clone nonce) JNull,
           st_ephemeralPubKeys = js_or (clone ephemeralPubKeys) JNull,
           st_nonces = js_or (clone nonces) JNull,
           st_groupKey = js_or (clone groupKey) JNull,
           st_privKeyList = js_or (clone privKeyList) (JArr []),
           st_intKeys = js_or (clone intKeys) (JArr []),
           st_pubKeyMap = pubKeyMap\<rparr>)))"

text \<open>Typed fields as dynamic values.\<close>

definition strVal :: "jsstring option \<Rightarrow> jsval" where
  "strVal s = (case s of None \<Rightarrow> JNull | Some v \<Rightarrow> JStr v)"

definition listVal :: "jsstring list \<Rightarrow> jsval" where
  "listVal xs = JArr (map JStr xs)"

definition listOptVal :: "jsstring list option \<Rightarrow> jsval" where
  "listOptVal xs = (case xs of None \<Rightarrow> JNull | Some v \<Rightarrow> listVal v)"

text \<open>
  \<open>Greeting.prototype.getResultState\<close>.  The call passes twelve arguments, \<open>this.id\<close>
  first.
\<close>

definition getResultState :: "Greeting \<Rightarrow> error + GreetStore" where
  "getResultState g =
     (if g_opState g \<noteq> READY then Inl (Error ''Greeting not yet finished'')
      else new_GreetStore
        [JStr (g_id g),
         JNum (STATE_code (g_opState g)), listVal (am_members (askeMember g)),
         strVal (am_sessionId (askeMember g)),
         strVal (am_ephemeralPrivKey (askeMember g)), strVal (am_ephemeralPubKey (askeMember g)),
         strVal (am_nonce (askeMember g)),
         listOptVal (am_ephemeralPubKeys (askeMember g)), listOptVal (am_nonces (askeMember g)),
         strVal (cq_groupKey (cliquesMember g)), listVal (cq_privKeyList (cliquesMember g)),
         listVal (cq_intKeys (cliquesMember g))])"

text \<open>A Greeting as it stands after a two-member session of member \<open>1\<close> has completed,
  with short values in place of keys and nonces.\<close>

definition readyGreeting :: Greeting where
  "readyGreeting =
     \<lparr>g_id = ascii ''1'', g_opState = READY,
      cliquesMember =
        \<lparr>cq_id = ascii ''1'', cq_members = [ascii ''1'', ascii ''2''],
         cq_groupKey = Some (ascii ''groupkey''), cq_privKeyList = [ascii ''exp''],
         cq_intKeys = [ascii ''ik1'', ascii ''ik2'']\<rparr>,
      askeMember =
        \<lparr>am_id = ascii ''1'', am_members = [ascii ''1'', ascii ''2''],
         am_sessionId = Some (ascii ''sid''), am_ephemeralPrivKey = Some (ascii ''priv1''),
         am_ephemeralPubKey = Some (ascii ''pub1''), am_nonce = Some (ascii ''nonce1''),
         am_ephemeralPubKeys = Some [ascii ''pub1'', ascii ''pub2''],
         am_nonces = Some [ascii ''nonce1'', ascii ''nonce2''],
         am_authenticatedMembers = [ascii ''1'', ascii ''2'']\<rparr>,
      g_metadata = None, g_sessionId = None, g_members = None, g_ephemeralPubKeys = None,
      g_groupKey = None, g_includeMembers = None\<rparr>"

section \<open>The session id (ske.js)\<close>

text \<open>
  \<open>_computeSid\<close> concatenates strings with \<open>+=\<close>, which converts whatever a nonce is
  to a string: a string is itself, an array is its elements joined by commas (\<open>null\<close>
  and \<open>undefined\<close> elements as nothing), a missing nonce is \<open>undefined\<close>.
\<close>

fun digit :: "nat \<Rightarrow> nat" where
  "digit d = 48 + d"

function decimal :: "nat \<Rightarrow> jsstring" where
  "decimal n = (if n < 10 then [digit n] else decimal (n div 10) @ [digit (n mod 10)])"
  by pat_completeness auto
termination
  by (relation "measure (\<lambda>n. n)") auto

fun join :: "jsstring \<Rightarrow> jsstring list \<Rightarrow> jsstring" where
  "join sep [] = []"
| "join sep [x] = x"
| "join sep (x # y # ys) = x @ sep @ join sep (y # ys)"

fun js_toString :: "jsval \<Rightarrow> jsstring" where
  "js_toString JUndefined = ascii ''undefined''"
| "js_toString JNull = ascii ''null''"
| "js_toString (JBool b) = (if b then ascii ''true'' else ascii ''false'')"
| "js_toString (JNum n) = (if n < 0 then ascii ''-'' @ decimal (nat (- n)) else decimal (nat n))"
| "js_toString (JStr s) = s"
| "js_toString (JArr xs) =
     join (ascii '','')
       (map (\<lambda>x. if x = JNull \<or> x = JUndefined then [] else js_toString x) xs)"

text \<open>
  \<open>var mapping = {}\<close> is an ordinary object.  A property name is a key of its own
  properties, except \<open>__proto__\<close>, which Object.prototype defines as an accessor:
  assigning an object or \<open>null\<close> to it replaces the prototype, assigning anything else
  does nothing, and reading it gives the prototype.  Once the prototype is \<open>null\<close> the
  accessor is gone and \<open>__proto__\<close> is a name like any other.
\<close>

datatype prototype = ObjectPrototype | NoPrototype | PrototypeObject jsval

record jsobject =
  own :: "jsstring \<rightharpoonup> jsval"
  proto :: prototype

definition emptyObject :: jsobject where
  "emptyObject = \<lparr>own = Map.empty, proto = ObjectPrototype\<rparr>"

definition isObject :: "jsval \<Rightarrow> bool" where
  "isObject v = (case v of JArr xs \<Rightarrow> True | _ \<Rightarrow> False)"

text \<open>\<open>obj[key] = value\<close>\<close>

definition setProperty :: "jsstring \<Rightarrow> jsval \<Rightarrow> jsobject \<Rightarrow> jsobject" where
  "setProperty key v obj =
     (if key = ascii ''__proto__'' \<and> proto obj \<noteq> NoPrototype \<and> own obj key = None then
        (if isObject v then obj\<lparr>proto := PrototypeObject v\<rparr>
         else if v = JNull then obj\<lparr>proto := NoPrototype\<rparr>
         else obj)
      else obj\<lparr>own := (own obj)(key \<mapsto> v)\<rparr>)"

text \<open>
  \<open>'' + obj[key]\<close>, for a key that is an own property or \<open>__proto__\<close>; Object.prototype
  itself prints as \<open>[object Object]\<close>.  Other inherited names, which \<open>_computeSid\<close>
  never reads, count as \<open>undefined\<close>.
\<close>

definition propertyString :: "jsobject \<Rightarrow> jsstring \<Rightarrow> jsstring" where
  "propertyString obj key =
     (case own obj key of
        Some v \<Rightarrow> js_toString v
      | None \<Rightarrow>
          if key = ascii ''__proto__'' then
            (case proto obj of
               ObjectPrototype \<Rightarrow> ascii ''[object Object]''
             | NoPrototype \<Rightarrow> ascii ''undefined''
             | PrototypeObject v \<Rightarrow> js_toString v)
          else ascii ''undefined'')"

text \<open>\<open>nonces[i]\<close>\<close>

definition nonceAt :: "jsval list \<Rightarrow> nat \<Rightarrow> jsval" where
  "nonceAt nonceList i = (if i < length nonceList then nonceList ! i else JUndefined)"

text \<open>
  \<open>mpenc.ske._computeSid(members, nonces)\<close>.  The hash (SHA-256 of sjcl, turned into
  bytes) is a parameter.
\<close>

definition computeSid :: "(jsstring \<Rightarrow> 'h) \<Rightarrow> jsstring list \<Rightarrow> jsval list \<Rightarrow> 'h" where
  "computeSid hash memberIds nonceList =
     (let mapping = fold (\<lambda>i. setProperty (memberIds ! i) (nonceAt nonceList i))
                      [0 ..< length memberIds] emptyObject;
          sortedMembers = sort memberIds;
          pidItems = concat sortedMembers;
          nonceItems = concat (map (propertyString mapping) sortedMembers)
      in hash (pidItems @ nonceItems))"

section \<open>The TLV codec and the wire format (codec.js)\<close>

text \<open>\<open>s.substring(a, b)\<close> for \<open>a \<le> b\<close>, and \<open>s.slice(a, -1)\<close>.\<close>

definition substring :: "jsstring \<Rightarrow> nat \<Rightarrow> nat \<Rightarrow> jsstring" where
  "substring s a b = take (b - a) (drop a s)"

definition sliceToLast :: "jsstring \<Rightarrow> nat \<Rightarrow> jsstring" where
  "sliceToLast s a = take (length s - 1 - a) (drop a s)"

text \<open>
  \<open>_short2bin(value)\<close> is \<open>String.fromCharCode(value >> 8) + String.fromCharCode(value
  & 0xff)\<close>.  \<open>fromCharCode\<close> keeps the low 16 bits of \<open>value >> 8\<close>, which are bits
  8 to 23 of \<open>value\<close> whatever the sign the 32-bit shift sees.
\<close>

definition short2bin :: "nat \<Rightarrow> jsstring" where
  "short2bin v = fromCharCode (v div 256) @ fromCharCode (v mod 256)"

text \<open>\<open>_bin2short(value)\<close> is \<open>(value.charCodeAt(0) << 8) | value.charCodeAt(1)\<close>; a
  missing character counts as 0, and code units cannot overflow 32 bits here.\<close>

definition charCodeAt :: "jsstring \<Rightarrow> nat \<Rightarrow> nat" where
  "charCodeAt s i = (if i < length s then s ! i else 0)"

definition bin2short :: "jsstring \<Rightarrow> nat" where
  "bin2short v = push_bit 8 (charCodeAt v 0) OR charCodeAt v 1"

text \<open>\<open>decodeTLV(tlv)\<close>: type, value and rest.\<close>

definition decodeTLV :: "jsstring \<Rightarrow> error + nat \<times> jsstring \<times> jsstring" where
  "decodeTLV tlv =
     (let type = bin2short (substring tlv 0 2);
          len = bin2short (substring tlv 2 4);
          val = substring tlv 4 (4 + len)
      in ebind (assert (len = length val) ''TLV payload length does not match indicated length.'')
           (\<lambda>_. Inr (type, val, drop (len + 4) tlv)))"

text \<open>\<open>encodeTLV(tlvType, value)\<close>, for a value that is a string; \<open>null\<close> and
  \<open>undefined\<close> are encoded as the empty string.\<close>

definition encodeTLV :: "nat \<Rightarrow> jsstring \<Rightarrow> jsstring" where
  "encodeTLV tlvType val = short2bin tlvType @ short2bin (length val) @ val"


text \<open>\<open>_encodeTlvArray\<close>\<close>

definition encodeTlvArray :: "nat \<Rightarrow> jsstring list \<Rightarrow> jsstring" where
  "encodeTlvArray tlvType valueArray = concat (map (encodeTLV tlvType) valueArray)"

text \<open>
  \<open>popTLV\<close>, \<open>popTLVMaybe\<close> and \<open>popTLVAll\<close> hand the decoded value to a callback and
  return the rest; here they return the value, or the values, with the rest.  After the
  callback \<open>popTLV\<close> and \<open>popTLVMaybe\<close> only return, so an exception of the callback
  is the same as one raised by the caller afterwards.  Inside the loop of \<open>popTLVAll\<close>
  it is not: there the callback is a parameter, \<open>Inl\<close> for the exception it throws on
  a value.
\<close>

definition popTLV :: "jsstring \<Rightarrow> nat \<Rightarrow> error + jsstring \<times> jsstring" where
  "popTLV message type =
     ebind (decodeTLV message)
       (\<lambda>(t, v, rest).
          if t \<noteq> type then Inl (Error ''decode failed; expected TLV'') else Inr (v, rest))"

definition popTLVMaybe :: "jsstring \<Rightarrow> nat \<Rightarrow> error + jsstring option \<times> jsstring" where
  "popTLVMaybe message type =
     ebind (decodeTLV message)
       (\<lambda>(t, v, rest). if t \<noteq> type then Inr (None, message) else Inr (Some v, rest))"

text \<open>The loop of \<open>popTLVAll\<close> runs while the rest changes; a record is never empty, so
  the rest gets shorter.\<close>

lemma popTLVMaybe_shorter:
  assumes "popTLVMaybe message type = Inr (Some v, rest)" and "rest \<noteq> message"
  shows "length rest < length message"
proof -
  from assms(1) have "rest = drop (bin2short (substring message 2 4) + 4) message"
    by (auto simp: popTLVMaybe_def decodeTLV_def ebind_def assert_def Let_def
        split: if_splits)
  with assms(2) show ?thesis
    by (cases "message = []") auto
qed

function popTLVAll ::
  "jsstring \<Rightarrow> nat \<Rightarrow> (jsstring \<Rightarrow> error + unit) \<Rightarrow> error + jsstring list \<times> jsstring" where
  "popTLVAll message type action =
     (case popTLVMaybe message type of
        Inl e \<Rightarrow> Inl e
      | Inr (None, rest) \<Rightarrow> Inr ([], rest)
      | Inr (Some v, rest) \<Rightarrow>
          (case action v of
             Inl e \<Rightarrow> Inl e
           | Inr _ \<Rightarrow>
               if rest = message then Inr ([v], rest)
               else (case popTLVAll rest type action of
                       Inl e \<Rightarrow> Inl e
                     | Inr (vs, rest') \<Rightarrow> Inr (v # vs, rest'))))"
  by pat_completeness auto
termination
  by (relation "measure (\<lambda>(message, type, action). length message)")
    (auto intro: popTLVMaybe_shorter)

subsection \<open>Base64 (\<open>btoa\<close> and \<open>atob\<close> of the browser)\<close>

text \<open>The alphabet is \<open>A\<close> to \<open>Z\<close>, \<open>a\<close> to \<open>z\<close>, \<open>0\<close> to \<open>9\<close>, \<open>+\<close> and
  \<open>/\<close>; \<open>b64char i\<close> is the code unit of its \<open>i\<close>-th character.\<close>

definition b64char :: "nat \<Rightarrow> nat" where
  "b64char i =
     (if i < 26 then 65 + i
      else if i < 52 then 71 + i
      else if i < 62 then i - 4
      else if i = 62 then 43
      else 47)"

text \<open>The position of a code unit in the alphabet.\<close>

definition b64index :: "nat \<Rightarrow> nat option" where
  "b64index c =
     (if 65 \<le> c \<and> c \<le> 90 then Some (c - 65)
      else if 97 \<le> c \<and> c \<le> 122 then Some (c - 71)
      else if 48 \<le> c \<and> c \<le> 57 then Some (c + 4)
      else if c = 43 then Some 62
      else if c = 47 then Some 63
      else None)"

definition equalsSign :: nat where
  "equalsSign = 61"

fun b64encode :: "jsstring \<Rightarrow> jsstring" where
  "b64encode (a # b # c # rest) =
     [b64char (a div 4), b64char ((a mod 4) * 16 + b div 16),
      b64char ((b mod 16) * 4 + c div 64), b64char (c mod 64)] @ b64encode rest"
| "b64encode [a, b] =
     [b64char (a div 4), b64char ((a mod 4) * 16 + b div 16), b64char ((b mod 16) * 4),
      equalsSign]"
| "b64encode [a] = [b64char (a div 4), b64char ((a mod 4) * 16), equalsSign, equalsSign]"
| "b64encode [] = []"

text \<open>The six-bit groups \<open>b64encode\<close> writes, and the padding it appends.\<close>

fun sextets :: "jsstring \<Rightarrow> nat list" where
  "sextets (a # b # c # rest) =
     [a div 4, (a mod 4) * 16 + b div 16, (b mod 16) * 4 + c div 64, c mod 64] @ sextets rest"
| "sextets [a, b] = [a div 4, (a mod 4) * 16 + b div 16, (b mod 16) * 4]"
| "sextets [a] = [a div 4, (a mod 4) * 16]"
| "sextets [] = []"

fun padding :: "jsstring \<Rightarrow> jsstring" where
  "padding (a # b # c # rest) = padding rest"
| "padding [a, b] = [equalsSign]"
| "padding [a] = [equalsSign, equalsSign]"
| "padding [] = []"

text \<open>\<open>btoa\<close> throws on a code unit above 255.\<close>

definition btoa :: "jsstring \<Rightarrow> error + jsstring" where
  "btoa s = (if isBinary s then Inr (b64encode s) else Inl InvalidCharacterError)"

text \<open>
  \<open>atob\<close>: ASCII whitespace is removed; when the length is then a multiple of four, one
  or two final \<open>=\<close> are removed; a length that leaves remainder 1, or a code unit
  outside the alphabet, is an error; the rest is read six bits at a time, and the bits
  left over at the end are dropped.
\<close>

definition isAsciiWhitespace :: "nat \<Rightarrow> bool" where
  "isAsciiWhitespace c = (c = 9 \<or> c = 10 \<or> c = 12 \<or> c = 13 \<or> c = 32)"

definition stripPadding :: "jsstring \<Rightarrow> jsstring" where
  "stripPadding s =
     (if length s mod 4 = 0 \<and> s \<noteq> [] \<and> last s = equalsSign then
        (if butlast s \<noteq> [] \<and> last (butlast s) = equalsSign then butlast (butlast s)
         else butlast s)
      else s)"

fun b64decode :: "nat list \<Rightarrow> jsstring" where
  "b64decode (p # q # r # s # rest) =
     [p * 4 + q div 16, (q mod 16) * 16 + r div 4, (r mod 4) * 64 + s] @ b64decode rest"
| "b64decode [p, q, r] = [p * 4 + q div 16, (q mod 16) * 16 + r div 4]"
| "b64decode [p, q] = [p * 4 + q div 16]"
| "b64decode [p] = []"
| "b64decode [] = []"

definition atob :: "jsstring \<Rightarrow> error + jsstring" where
  "atob s =
     (let d = stripPadding (filter (\<lambda>c. \<not> isAsciiWhitespace c) s) in
      if length d mod 4 = 1 \<or> \<not> list_all (\<lambda>c. b64index c \<noteq> None) d
      then Inl InvalidCharacterError
      else Inr (b64decode (map (\<lambda>c. the (b64index c)) d)))"

subsection \<open>Wire framing\<close>

definition PROTOCOL_PREFIX :: jsstring where
  "PROTOCOL_PREFIX = ascii ''?mpENC''"

definition tlvToWire :: "jsstring \<Rightarrow> error + jsstring" where
  "tlvToWire contents =
     ebind (btoa contents) (\<lambda>b. Inr (PROTOCOL_PREFIX @ ascii '':'' @ b @ ascii ''.''))"

definition wireToTLV :: "jsstring \<Rightarrow> error + jsstring" where
  "wireToTLV wireMessage = atob (sliceToLast wireMessage (length PROTOCOL_PREFIX + 1))"

section \<open>Data messages (message.js)\<close>

subsection \<open>UTF-8\<close>

text \<open>
  \<open>unescape(encodeURIComponent(s))\<close> is the UTF-8 encoding of \<open>s\<close> as a binary string:
  \<open>encodeURIComponent\<close> joins a surrogate pair into one code point, throws a
  \<open>URIError\<close> on a surrogate that stands alone, and writes the octets of each code
  point as \<open>%XX\<close>, which \<open>unescape\<close> turns into code units.
\<close>

definition utf8 :: "nat \<Rightarrow> jsstring" where
  "utf8 v =
     (if v < 0x80 then [v]
      else if v < 0x800 then [0xC0 + v div 64, 0x80 + v mod 64]
      else if v < 0x10000 then [0xE0 + v div 4096, 0x80 + v div 64 mod 64, 0x80 + v mod 64]
      else [0xF0 + v div 262144, 0x80 + v div 4096 mod 64, 0x80 + v div 64 mod 64,
            0x80 + v mod 64])"

fun encodeUtf8 :: "jsstring \<Rightarrow> error + jsstring" where
  "encodeUtf8 [] = Inr []"
| "encodeUtf8 (c # rest) =
     (if 0xDC00 \<le> c \<and> c \<le> 0xDFFF then Inl URIError
      else if c < 0xD800 \<or> c > 0xDBFF then
        ebind (encodeUtf8 rest) (\<lambda>r. Inr (utf8 c @ r))
      else
        (case rest of
           [] \<Rightarrow> Inl URIError
         | k # rest' \<Rightarrow>
             if k < 0xDC00 \<or> k > 0xDFFF then Inl URIError
             else ebind (encodeUtf8 rest')
                    (\<lambda>r. Inr (utf8 ((c - 0xD800) * 0x400 + (k - 0xDC00) + 0x10000) @ r))))"

text \<open>
  \<open>decodeURIComponent(escape(s))\<close> is the strict UTF-8 decoding of a binary string:
  \<open>escape\<close> writes the code units as \<open>%XX\<close> (or leaves ASCII letters, digits and a few
  signs, which decode to themselves), and \<open>decodeURIComponent\<close> throws a \<open>URIError\<close>
  on a lead octet with one or more than four leading one bits, on a missing or wrong
  continuation octet, and on octets that are not the UTF-8 encoding of a code point
  (too long a form, a surrogate, a value above \<open>0x10FFFF\<close>).  A code unit above 255
  becomes \<open>%uXXXX\<close>, which it rejects too.  A code point from \<open>0x10000\<close> is returned
  as a surrogate pair.
\<close>

definition isContinuation :: "nat \<Rightarrow> bool" where
  "isContinuation b = (0x80 \<le> b \<and> b < 0xC0)"

fun decodeUtf8 :: "jsstring \<Rightarrow> error + jsstring" where
  "decodeUtf8 [] = Inr []"
| "decodeUtf8 (b # rest) =
     (if b < 0x80 then ebind (decodeUtf8 rest) (\<lambda>r. Inr (b # r))
      else if b < 0xC0 \<or> 0xF8 \<le> b then Inl URIError
      else if b < 0xE0 then
        (case rest of
           c1 # rest1 \<Rightarrow>
             if isContinuation c1 then
               (let v = b mod 32 * 64 + c1 mod 64 in
                if v < 0x80 then Inl URIError
                else ebind (decodeUtf8 rest1) (\<lambda>r. Inr (v # r)))
             else Inl URIError
         | _ \<Rightarrow> Inl URIError)
      else if b < 0xF0 then
        (case rest of
           c1 # c2 # rest2 \<Rightarrow>
             if isContinuation c1 \<and> isContinuation c2 then
               (let v = b mod 16 * 4096 + c1 mod 64 * 64 + c2 mod 64 in
                if v < 0x800 \<or> (0xD800 \<le> v \<and> v \<le> 0xDFFF) then Inl URIError
                else ebind (decodeUtf8 rest2) (\<lambda>r. Inr (v # r)))
             else Inl URIError
         | _ \<Rightarrow> Inl URIError)
      else
        (case rest of
           c1 # c2 # c3 # rest3 \<Rightarrow>
             if isContinuation c1 \<and> isContinuation c2 \<and> isContinuation c3 then
               (let v = b mod 8 * 262144 + c1 mod 64 * 4096 + c2 mod 64 * 64 + c3 mod 64 in
                if v < 0x10000 \<or> v > 0x10FFFF then Inl URIError
                else ebind (decodeUtf8 rest3)
                       (\<lambda>r. Inr ((0xD800 + (v - 0x10000) div 1024)
                                  # (0xDC00 + (v - 0x10000) mod 1024) # r)))
             else Inl URIError
         | _ \<Rightarrow> Inl URIError))"

text \<open>A JavaScript string: every code unit is below \<open>2^16\<close>.\<close>

definition isString :: "jsstring \<Rightarrow> bool" where
  "isString s = list_all (\<lambda>c. c < 65536) s"

subsection \<open>The primitives and the parts of the codec that are parameters\<close>

text \<open>
  The libraries behind \<open>utils.sha256\<close>, \<open>jodid25519.eddsa\<close>, \<open>asmCrypto.AES_CTR\<close> and
  \<open>utils.randomString\<close> are parameters.  A signature or cipher call may throw.
  \<open>randomString n\<close> is the string the random source delivers when \<open>n\<close> characters
  are asked for.
\<close>

record primitives =
  sha256 :: "jsstring \<Rightarrow> jsstring"
  eddsa_sign :: "jsstring \<Rightarrow> jsstring \<Rightarrow> jsstring \<Rightarrow> error + jsstring"
  eddsa_verify :: "jsstring \<Rightarrow> jsstring \<Rightarrow> jsstring \<Rightarrow> error + bool"
  AES_CTR_encrypt :: "jsstring \<Rightarrow> jsstring \<Rightarrow> jsstring \<Rightarrow> error + jsstring"
  AES_CTR_decrypt :: "jsstring \<Rightarrow> jsstring \<Rightarrow> jsstring \<Rightarrow> error + jsstring"
  randomString :: "nat \<Rightarrow> jsstring"

text \<open>\<open>utils.string2bytes\<close> and \<open>utils.bytes2string\<close> go between a binary string and
  the array of its character codes, which are the same list here.\<close>

definition string2bytes :: "jsstring \<Rightarrow> jsstring" where
  "string2bytes s = s"

definition bytes2string :: "jsstring \<Rightarrow> jsstring" where
  "bytes2string b = b"

text \<open>
  The record types of \<open>codec.TLV_TYPE\<close> that message.js uses.  codec.js gives
  \<open>PROTOCOL_VERSION\<close>, \<open>MESSAGE_SIGNATURE\<close>, \<open>MESSAGE_IV\<close> and \<open>SIDKEY_HINT\<close>.
\<close>

definition TLV_PROTOCOL_VERSION :: nat where "TLV_PROTOCOL_VERSION = 0x0001"
definition TLV_MESSAGE_SIGNATURE :: nat where "TLV_MESSAGE_SIGNATURE = 0x0003"
definition TLV_MESSAGE_IV :: nat where "TLV_MESSAGE_IV = 0x0004"
definition TLV_SIDKEY_HINT :: nat where "TLV_SIDKEY_HINT = 0x0006"

text \<open>Modelled from the spec: the record type \<open>MESSAGE_TYPE\<close>, which the codec.js among
  the sources does not have yet; section 6 of the specification gives it as 0x0005.\<close>

definition TLV_MESSAGE_TYPE :: nat where "TLV_MESSAGE_TYPE = 0x0005"

text \<open>
  What message.js takes from the codec and from \<open>mpenc/version\<close> and the sources do not
  give: the record types \<open>MESSAGE_PARENT\<close>, \<open>MESSAGE_BODY\<close> and \<open>MESSAGE_PAYLOAD\<close>, the
  protocol version string, and the value that stands for a data message in a
  \<open>MESSAGE_TYPE\<close> record.
\<close>

record codecTable =
  TLV_MESSAGE_PARENT :: nat
  TLV_MESSAGE_BODY :: nat
  TLV_MESSAGE_PAYLOAD :: nat
  PROTOCOL_VERSION :: jsstring
  DATA_MESSAGE_TYPE :: jsstring

definition ENCODED_VERSION :: "codecTable \<Rightarrow> jsstring" where
  "ENCODED_VERSION tbl = encodeTLV TLV_PROTOCOL_VERSION (PROTOCOL_VERSION tbl)"

text \<open>Modelled from the spec: \<open>codec.ENCODED_TYPE_DATA\<close>, the \<open>MESSAGE_TYPE\<close> record of a
  data message (section 4.1: \<open>PROTOCOL_VERSION\<close>, then \<open>MESSAGE_TYPE\<close> (=DATA)).\<close>

definition ENCODED_TYPE_DATA :: "codecTable \<Rightarrow> jsstring" where
  "ENCODED_TYPE_DATA tbl = encodeTLV TLV_MESSAGE_TYPE (DATA_MESSAGE_TYPE tbl)"

text \<open>Modelled from the spec: \<open>codec.popStandardFields(rest, expectedType, debugOutput)\<close>
  in the form message.js calls it, which consumes the \<open>PROTOCOL_VERSION\<close> record and the
  \<open>MESSAGE_TYPE\<close> record and fails when either is not the expected one.\<close>

definition popStandardFields :: "codecTable \<Rightarrow> jsstring \<Rightarrow> jsstring \<Rightarrow> error + jsstring" where
  "popStandardFields tbl message expectedType =
     ebind (popTLV message TLV_PROTOCOL_VERSION)
       (\<lambda>(v, rest).
          if v \<noteq> PROTOCOL_VERSION tbl
          then Inl (Error ''decode failed; expected PROTOCOL_VERSION'')
          else ebind (popTLV rest TLV_MESSAGE_TYPE)
                 (\<lambda>(t, rest').
                    if t \<noteq> expectedType then Inl (Error ''decode failed; expected message type'')
                    else Inr rest'))"

text \<open>Modelled from the spec: \<open>codec.encodeWirePacket\<close> and \<open>codec.decodeWirePacket\<close>,
  the frame \<open>?mpENC:\<close>, base64 of the records, \<open>.\<close> of section 4.1; decoding gives the
  records as \<open>content\<close> and fails on anything that is not such a frame.\<close>

definition encodeWirePacket :: "jsstring \<Rightarrow> error + jsstring" where
  "encodeWirePacket contents = tlvToWire contents"

definition decodeWirePacket :: "jsstring \<Rightarrow> error + jsstring" where
  "decodeWirePacket wireMessage =
     (if take (length PROTOCOL_PREFIX + 1) wireMessage = PROTOCOL_PREFIX @ ascii '':''
         \<and> length wireMessage > length PROTOCOL_PREFIX + 1 \<and> last wireMessage = 46
      then wireToTLV wireMessage
      else Inl (Error ''not an mpENC frame''))"

text \<open>\<open>codec.signMessage\<close> and \<open>codec.verifyMessageSignature\<close> for a data message; the
  magic number is followed by the hash of session id and group key.\<close>

definition signDataMessage ::
  "primitives \<Rightarrow> jsstring \<Rightarrow> jsstring \<Rightarrow> jsstring \<Rightarrow> jsstring \<Rightarrow> error + jsstring" where
  "signDataMessage prim content privKey pubKey sidkeyHash =
     eddsa_sign prim (ascii ''datamsgsig'' @ sidkeyHash @ content) privKey pubKey"

definition verifyDataMessageSignature ::
  "primitives \<Rightarrow> jsstring \<Rightarrow> jsstring \<Rightarrow> jsstring \<Rightarrow> jsstring \<Rightarrow> error + bool" where
  "verifyDataMessageSignature prim content sig pubKey sidkeyHash =
     eddsa_verify prim sig (ascii ''datamsgsig'' @ sidkeyHash @ content) pubKey"

subsection \<open>Encryption\<close>

text \<open>\<open>paddingSize | 0\<close>\<close>

definition toInt32 :: "int \<Rightarrow> int" where
  "toInt32 n = sint (word_of_int n :: 32 word)"

text \<open>\<open>Math.ceil(a / b)\<close> for a length \<open>a\<close> and \<open>b > 0\<close>.\<close>

definition ceilDiv :: "nat \<Rightarrow> nat \<Rightarrow> nat" where
  "ceilDiv a b = (a + b - 1) div b"

text \<open>
  What \<open>_encryptRaw\<close> hands to \<open>asmCrypto.AES_CTR.encrypt\<close>: the data, the key and the
  counter block.
\<close>

record AesArguments =
  aes_data :: jsstring
  aes_key :: jsstring
  aes_counter :: jsstring

text \<open>
  The longest string the engine makes; building a longer one throws a \<open>RangeError\<close>.
  The value is that of V8.
\<close>

definition maxStringLength :: nat where
  "maxStringLength = 2 ^ 29 - 24"

text \<open>
  The padding.  \<open>Math.ceil(Math.log(n) / Math.log(2))\<close> is \<open>ceillog2 n\<close>: \<open>n\<close> is here at
  most 65537, and up to there the quotient of the two floating point logarithms is
  exact at every power of two.  For a negative padding size the logarithm is not a
  number and the shift count is 0.  \<open>new Array(k)\<close> throws a \<open>RangeError\<close> for a negative
  \<open>k\<close> and from \<open>2^32\<close>; \<open>new Array(k).join('\u0000')\<close> is \<open>k - 1\<close> zero characters,
  and appending them throws a \<open>RangeError\<close> when the string gets longer than the
  engine allows.
\<close>

definition paddedData :: "jsstring \<Rightarrow> int \<Rightarrow> error + jsstring" where
  "paddedData dataBytes paddingSize =
     (if paddingSize \<noteq> 0 then
        (let shift = (if paddingSize > 0
                      then ceillog2 (ceilDiv (length dataBytes) (nat paddingSize)) else 0);
             exponentialPaddingSize = paddingSize * sint (shl1 (int shift)) + 1;
             numPaddingBytes = exponentialPaddingSize - int (length dataBytes)
         in if numPaddingBytes < 0 \<or> numPaddingBytes \<ge> 2 ^ 32 then Inl RangeError
            else if length dataBytes + (nat numPaddingBytes - 1) > maxStringLength
            then Inl RangeError
            else Inr (dataBytes @ replicate (nat numPaddingBytes - 1) 0))
      else Inr dataBytes)"

definition encryptRawArguments ::
  "primitives \<Rightarrow> jsstring \<Rightarrow> jsstring \<Rightarrow> int \<Rightarrow> error + AesArguments" where
  "encryptRawArguments prim dataBytes key paddingSize0 =
     (let paddingSize = toInt32 paddingSize0;
          keyBytes = string2bytes key
      in ebind (assert (length dataBytes < 0xffff)
                  ''Message size too large for encryption scheme.'')
           (\<lambda>_.
         ebind (paddedData (short2bin (length dataBytes) @ dataBytes) paddingSize)
           (\<lambda>padded.
         let nonce = randomString prim 12 in
         Inr \<lparr>aes_data = padded, aes_key = keyBytes,
              aes_counter = string2bytes (nonce @ [0, 0, 0, 0])\<rparr>)))"

record Encrypted =
  enc_data :: jsstring
  enc_iv :: jsstring

text \<open>\<open>ns._encryptRaw(dataBytes, key, paddingSize)\<close>\<close>

definition encryptRaw ::
  "primitives \<Rightarrow> jsstring \<Rightarrow> jsstring \<Rightarrow> int \<Rightarrow> error + Encrypted" where
  "encryptRaw prim dataBytes key paddingSize =
     ebind (encryptRawArguments prim dataBytes key paddingSize)
       (\<lambda>a.
     ebind (AES_CTR_encrypt prim (aes_data a) (aes_key a) (aes_counter a))
       (\<lambda>cipherBytes.
     Inr \<lparr>enc_data = bytes2string cipherBytes, enc_iv = randomString prim 12\<rparr>))"

text \<open>\<open>ns._decryptRaw(data, key, iv)\<close>\<close>

definition decryptRaw :: "primitives \<Rightarrow> jsstring \<Rightarrow> jsstring \<Rightarrow> jsstring \<Rightarrow> error + jsstring" where
  "decryptRaw prim encrypted key iv =
     (let keyBytes = string2bytes key;
          ivBytes = string2bytes (take 12 iv @ [0, 0, 0, 0])
      in ebind (AES_CTR_decrypt prim encrypted keyBytes ivBytes)
           (\<lambda>clearBytes.
         let clearString = bytes2string clearBytes;
             messageSize = bin2short (substring clearString 0 2)
         in Inr (substring clearString 2 (messageSize + 2))))"

subsection \<open>authEncrypt and decryptVerify\<close>

text \<open>
  The fields of the \<open>GreetStore\<close> that \<open>MessageSecurity\<close> reads, for a store in state
  READY; \<open>pubKeyMap\<close> maps a member to its ephemeral public key.
\<close>

record SessionStore =
  ss_id :: jsstring
  ss_members :: "jsstring list"
  ss_sessionId :: jsstring
  ss_ephemeralPrivKey :: jsstring
  ss_ephemeralPubKey :: jsstring
  ss_groupKey :: jsstring
  ss_pubKeyMap :: "jsstring \<rightharpoonup> jsstring"

record MessageSecurity =
  greetStore :: SessionStore
  paddingSize :: int

text \<open>A \<open>PendingMessage\<close>; the sets \<open>parents\<close> and \<open>readers\<close> are the lists of their
  elements in the order \<open>forEach\<close> visits them.\<close>

record PendingMessage =
  pm_author :: jsstring
  pm_parents :: "jsstring list"
  pm_readers :: "jsstring list"
  pm_body :: jsstring

record CipherMessage =
  pubtxt :: jsstring
  mId :: jsstring

record ClearMessage =
  cm_mId :: jsstring
  cm_message :: PendingMessage

text \<open>\<open>_dummyMessageSecrets\<close>: the message id.\<close>

definition dummyMessageId :: "primitives \<Rightarrow> jsstring \<Rightarrow> jsstring \<Rightarrow> jsstring" where
  "dummyMessageId prim sig content = take 20 (sha256 prim (sig @ content))"

text \<open>The record stream that is encrypted: the parents, then the body in UTF-8.\<close>

definition rawBody :: "codecTable \<Rightarrow> jsstring list \<Rightarrow> jsstring \<Rightarrow> jsstring" where
  "rawBody tbl parentIds body =
     concat (map (encodeTLV (TLV_MESSAGE_PARENT tbl)) parentIds)
     @ encodeTLV (TLV_MESSAGE_BODY tbl) body"

text \<open>\<open>MessageSecurity.prototype.authEncrypt(transcript, message)\<close>\<close>

definition authEncrypt ::
  "primitives \<Rightarrow> codecTable \<Rightarrow> MessageSecurity \<Rightarrow> PendingMessage \<Rightarrow> error + CipherMessage" where
  "authEncrypt prim tbl self message =
     (let store = greetStore self in
      ebind (assert (pm_author message = ss_id store) '''') (\<lambda>_.
      let privKey = ss_ephemeralPrivKey store;
          pubKey = ss_ephemeralPubKey store;
          sessionID = ss_sessionId store;
          groupKey = ss_groupKey store
      in
      ebind (assert (set (pm_readers message) \<union> {ss_id store} = set (ss_members store))
               ''Readers not members of session'') (\<lambda>_.
      let sidkeyHash = sha256 prim (sessionID @ groupKey);
          content0 = ENCODED_VERSION tbl @ ENCODED_TYPE_DATA tbl
      in
      ebind (encodeUtf8 (pm_body message)) (\<lambda>body.
      ebind (encryptRaw prim (rawBody tbl (pm_parents message) body) groupKey (paddingSize self))
        (\<lambda>encrypted.
      let content = content0 @ encodeTLV TLV_MESSAGE_IV (enc_iv encrypted)
                      @ encodeTLV (TLV_MESSAGE_PAYLOAD tbl) (enc_data encrypted)
      in
      ebind (signDataMessage prim content privKey pubKey sidkeyHash) (\<lambda>sig.
      let out = encodeTLV TLV_SIDKEY_HINT (take 1 sidkeyHash)
                  @ encodeTLV TLV_MESSAGE_SIGNATURE sig @ content
      in
      ebind (encodeWirePacket out) (\<lambda>wire.
      Inr \<lparr>pubtxt = wire, mId = dummyMessageId prim sig content\<rparr>)))))))"

record Inspected =
  in_sidkeyHint :: jsstring
  in_signature :: jsstring
  in_rawMessage :: jsstring

text \<open>The callbacks write \<open>btoa(value)\<close> into the debug output, and \<open>btoa\<close> throws
  on a code unit above 255.\<close>

definition debugBase64 :: "jsstring \<Rightarrow> error + unit" where
  "debugBase64 v = ebind (btoa v) (\<lambda>_. Inr ())"

text \<open>\<open>_inspectMessage\<close>; \<open>codec.decodeError\<close> throws.\<close>

definition inspectMessage :: "jsstring \<Rightarrow> error + Inspected" where
  "inspectMessage message =
     ebind (popTLV message TLV_SIDKEY_HINT) (\<lambda>(hint, rest).
     if length hint \<noteq> 1 then Inl (Error ''unexpected length for SIDKEY_HINT'')
     else
       ebind (popTLV rest TLV_MESSAGE_SIGNATURE) (\<lambda>(sig, rest').
       ebind (debugBase64 sig) (\<lambda>_.
       Inr \<lparr>in_sidkeyHint = hint, in_signature = sig, in_rawMessage = rest'\<rparr>)))"

text \<open>\<open>_decodeMessage\<close>: the initialisation vector and the payload.\<close>

definition decodeMessage :: "codecTable \<Rightarrow> jsstring \<Rightarrow> error + jsstring \<times> jsstring" where
  "decodeMessage tbl rawMessage0 =
     ebind (popStandardFields tbl rawMessage0 (DATA_MESSAGE_TYPE tbl)) (\<lambda>rest.
     ebind (popTLV rest TLV_MESSAGE_IV) (\<lambda>(iv, rest1).
     ebind (debugBase64 iv) (\<lambda>_.
     ebind (popTLV rest1 (TLV_MESSAGE_PAYLOAD tbl)) (\<lambda>(payload, rest2).
     ebind (debugBase64 payload) (\<lambda>_.
     Inr (iv, payload))))))"

text \<open>\<open>_decrypt(inspected, groupKey, author, members)\<close>\<close>

definition decrypt ::
  "primitives \<Rightarrow> codecTable \<Rightarrow> Inspected \<Rightarrow> jsstring \<Rightarrow> jsstring \<Rightarrow> jsstring list
     \<Rightarrow> error + ClearMessage" where
  "decrypt prim tbl inspected groupKey authorId memberIds =
     ebind (decodeMessage tbl (in_rawMessage inspected)) (\<lambda>(iv, payload).
     ebind (assert (payload \<noteq> []) '''') (\<lambda>_.
     ebind (decryptRaw prim payload groupKey iv) (\<lambda>clear.
     ebind (popTLVAll clear (TLV_MESSAGE_PARENT tbl) debugBase64) (\<lambda>(parentIds, rest).
     ebind (popTLV rest (TLV_MESSAGE_BODY tbl)) (\<lambda>(bodyBytes, rest1).
     ebind (decodeUtf8 bodyBytes) (\<lambda>body.
     ebind (assert (authorId \<in> set memberIds) '''') (\<lambda>_.
     Inr \<lparr>cm_mId = dummyMessageId prim (in_signature inspected) (in_rawMessage inspected),
          cm_message =
            \<lparr>pm_author = authorId, pm_parents = parentIds,
             pm_readers = remove1 authorId memberIds, pm_body = body\<rparr>\<rparr>)))))))"

text \<open>
  \<open>MessageSecurity.prototype.decryptVerify(transcript, pubtxt, authorHint)\<close>; \<open>None\<close>
  is the \<open>null\<close> it returns for an empty author hint.
\<close>

definition decryptVerify ::
  "primitives \<Rightarrow> codecTable \<Rightarrow> MessageSecurity \<Rightarrow> jsstring \<Rightarrow> jsstring
     \<Rightarrow> error + ClearMessage option" where
  "decryptVerify prim tbl self wire authorHint =
     (let store = greetStore self;
          sessionID = ss_sessionId store;
          groupKey = ss_groupKey store
      in
      if authorHint = [] then Inr None
      else
        ebind (decodeWirePacket wire) (\<lambda>content.
        let signingPubKey = ss_pubKeyMap store authorHint in
        ebind (inspectMessage content) (\<lambda>inspected.
        let sidkeyHash = sha256 prim (sessionID @ groupKey) in
        (case strOrNull signingPubKey of
           None \<Rightarrow> Inl (DecryptVerifyError ''no key found'')
         | Some key \<Rightarrow>
             ebind (verifyDataMessageSignature prim (in_rawMessage inspected)
                      (in_signature inspected) key sidkeyHash) (\<lambda>verifySig.
             if \<not> verifySig then Inl (DecryptVerifyError ''bad signature'')
             else
               ebind (decrypt prim tbl inspected groupKey authorHint (ss_members store))
                 (\<lambda>decrypted. Inr (Some decrypted)))))))"

section \<open>Instances for evaluation\<close>

text \<open>
  Stand-ins for the libraries, simple enough to evaluate: a hash of 32 octets, a
  signature of 64 octets that names the public key and is checked against it, a cipher
  that complements every octet and, like the library, refuses code units above 255,
  and a random source that always delivers the same character.
\<close>

definition exampleHash :: "jsstring \<Rightarrow> jsstring" where
  "exampleHash s = replicate 32 (length s mod 256)"

definition exampleSignature :: "jsstring \<Rightarrow> jsstring \<Rightarrow> jsstring" where
  "exampleSignature msg pubKey = take 32 pubKey @ replicate 32 (length msg mod 256)"

definition exampleCipher :: "jsstring \<Rightarrow> jsstring \<Rightarrow> jsstring \<Rightarrow> error + jsstring" where
  "exampleCipher d key counter =
     (if isBinary d then Inr (map (\<lambda>x. 255 - x) d)
      else Inl (Error ''Wide characters are not allowed.''))"

definition examplePrimitives :: primitives where
  "examplePrimitives =
     \<lparr>sha256 = exampleHash,
      eddsa_sign = (\<lambda>msg privKey pubKey. Inr (exampleSignature msg pubKey)),
      eddsa_verify = (\<lambda>sig msg pubKey. Inr (sig = exampleSignature msg pubKey)),
      AES_CTR_encrypt = exampleCipher,
      AES_CTR_decrypt = exampleCipher,
      randomString = (\<lambda>n. replicate n 114)\<rparr>"

text \<open>Values for the record types and constants that the sources do not give.\<close>

definition exampleTable :: codecTable where
  "exampleTable =
     \<lparr>TLV_MESSAGE_PARENT = 0x0012, TLV_MESSAGE_BODY = 0x0013, TLV_MESSAGE_PAYLOAD = 0x0010,
      PROTOCOL_VERSION = [1], DATA_MESSAGE_TYPE = [3]\<rparr>"

text \<open>The session of the members \<open>1\<close> and \<open>2\<close> as member \<open>1\<close> stores it, with a group
  key of 32 octets, and a message of member \<open>1\<close>.\<close>

definition exampleStore :: SessionStore where
  "exampleStore =
     \<lparr>ss_id = ascii ''1'', ss_members = [ascii ''1'', ascii ''2''],
      ss_sessionId = replicate 32 83, ss_ephemeralPrivKey = replicate 32 5,
      ss_ephemeralPubKey = replicate 32 6, ss_groupKey = [0 ..< 32],
      ss_pubKeyMap = [ascii ''1'' \<mapsto> replicate 32 6, ascii ''2'' \<mapsto> replicate 32 7]\<rparr>"

definition exampleMessage :: PendingMessage where
  "exampleMessage =
     \<lparr>pm_author = ascii ''1'', pm_parents = [ascii ''p1'', ascii ''p2''],
      pm_readers = [ascii ''2''], pm_body = ascii ''Hi '' @ [0xE9, 0x20AC, 0xD83D, 0xDE00]\<rparr>"

section \<open>Encoding a greet message (greeter.js)\<close>









section \<open>The ASKE member of the sources (ske.js)\<close>





text \<open>
  Modelled from the spec: stand-ins for the methods of the CLIQUES and the ASKE member,
  which keep the shape of the messages of sections 4.2 and 4.3 and leave the keys as
  they are.  \<open>ika\<close>, \<open>akaJoin\<close>, \<open>commit\<close> and \<open>join\<close> send an upflow to the first
  other member, \<open>upflow\<close> forwards to the member after the own one or, from the last
  member, broadcasts a downflow, \<open>akaExclude\<close>, \<open>akaRefresh\<close> and \<open>exclude\<close>
  broadcast, \<open>downflow\<close> consumes, and \<open>quit\<close> emits the ephemeral private key.
\<close>

definition nextMember :: "jsstring \<Rightarrow> jsstring list \<Rightarrow> jsstring" where
  "nextMember i ms = (case dropWhile (\<lambda>x. x \<noteq> i) ms of _ # n # _ \<Rightarrow> n | _ \<Rightarrow> [])"

definition cliquesMessageTo :: "CliquesMember \<Rightarrow> jsstring \<Rightarrow> jsstring list \<Rightarrow> CliquesMessage" where
  "cliquesMessageTo c to ms =
     \<lparr>cl_source = cq_id c, cl_dest = to, cl_agreement = ''aka'',
      cl_flow = (if to = [] then ''down'' else ''up''), cl_members = Some ms,
      cl_intKeys = Some (cq_intKeys c)\<rparr>"

definition askeMessageTo ::
  "SignatureKeyExchangeMember \<Rightarrow> jsstring \<Rightarrow> jsstring list \<Rightarrow> SignatureKeyExchangeMessage" where
  "askeMessageTo a to ms =
     \<lparr>ske_source = am_id a, ske_dest = to, ske_flow = (if to = [] then ''down'' else ''up''),
      ske_members = Some ms, ske_nonces = am_nonces a, ske_pubKeys = am_ephemeralPubKeys a,
      ske_sessionSignature = None, ske_signingKey = None\<rparr>"

definition exampleOps :: member_ops where
  "exampleOps =
     \<lparr>ika = (\<lambda>c others.
         Inr (c\<lparr>cq_members := cq_id c # others\<rparr>,
              cliquesMessageTo c (nextMember (cq_id c) (cq_id c # others)) (cq_id c # others))),
      cliques_upflow = (\<lambda>c m.
         let ms = (case cl_members m of None \<Rightarrow> [] | Some xs \<Rightarrow> xs) in
         Inr (c\<lparr>cq_members := ms\<rparr>, cliquesMessageTo c (nextMember (cq_id c) ms) ms)),
      cliques_downflow = (\<lambda>c m. Inr c),
      akaJoin = (\<lambda>c new.
         Inr (c\<lparr>cq_members := cq_members c @ new\<rparr>,
              cliquesMessageTo c (nextMember (last (cq_members c)) (cq_members c @ new))
                (cq_members c @ new))),
      akaExclude = (\<lambda>c gone.
         let ms = filter (\<lambda>x. x \<notin> set gone) (cq_members c) in
         Inr (c\<lparr>cq_members := ms\<rparr>, cliquesMessageTo c [] ms)),
      akaRefresh = (\<lambda>c. Inr (c, cliquesMessageTo c [] (cq_members c))),
      akaQuit = (\<lambda>c. Inr (c\<lparr>cq_privKeyList := [], cq_groupKey := None\<rparr>)),
      commit = (\<lambda>a others.
         Inr (a\<lparr>am_members := am_id a # others\<rparr>,
              askeMessageTo a (nextMember (am_id a) (am_id a # others)) (am_id a # others))),
      aske_upflow = (\<lambda>a m.
         let ms = (case ske_members m of None \<Rightarrow> [] | Some xs \<Rightarrow> xs) in
         Inr (a\<lparr>am_members := ms\<rparr>, askeMessageTo a (nextMember (am_id a) ms) ms)),
      aske_downflow = (\<lambda>a m.
         Inr (a\<lparr>am_authenticatedMembers := ske_source m # am_authenticatedMembers a\<rparr>, None)),
      aske_join = (\<lambda>a new.
         Inr (a\<lparr>am_members := am_members a @ new\<rparr>,
              askeMessageTo a (nextMember (last (am_members a)) (am_members a @ new))
                (am_members a @ new))),
      aske_exclude = (\<lambda>a gone.
         let ms = filter (\<lambda>x. x \<notin> set gone) (am_members a) in
         Inr (a\<lparr>am_members := ms\<rparr>, askeMessageTo a [] ms)),
      aske_quit = (\<lambda>a.
         Inr (a\<lparr>am_ephemeralPrivKey := None\<rparr>,
              (askeMessageTo a [] (am_members a))\<lparr>ske_signingKey := am_ephemeralPrivKey a\<rparr>)),
      isSessionAcknowledged = (\<lambda>a. set (am_members a) \<subseteq> set (am_authenticatedMembers a))\<rparr>"





section \<open>Setting a bit of a greet type\<close>

lemma dom_fold_upd:
  "dom (fold (\<lambda>(propName, v) m. m(v \<mapsto> propName)) tbl m0) = dom m0 \<union> snd ` set tbl"
  by (induction tbl arbitrary: m0) (auto split: prod.splits)

lemma reverseMapping_None: "reverseMapping tbl t = None \<longleftrightarrow> t \<notin> enumerated tbl"
proof -
  have "dom (reverseMapping tbl) = enumerated tbl"
    by (simp add: reverseMapping_def enumerated_def dom_fold_upd)
  then show ?thesis
    by (metis domIff)
qed

lemma setBit_in_checked:
  assumes "greetType m = Some t"
    and "noMessageCheck \<noteq> JBool True" and "noMessageCheck \<noteq> JNum 1"
  shows "setBit_in (reverseMapping tbl) bitNo (JBool b) noMessageCheck m =
           (if setBit_result t bitNo b \<in> enumerated tbl
            then (None, m\<lparr>greetType := Some (setBit_result t bitNo b)\<rparr>)
            else (Some (Error ''Illegal message type!''), m))"
  using assms
  by (cases b) (simp_all add: setBit_in_def setBit_result_def Let_def reverseMapping_None)

lemma setBit_in_override:
  assumes "greetType m = Some t"
    and "noMessageCheck = JBool True \<or> noMessageCheck = JNum 1"
  shows "setBit_in (reverseMapping tbl) bitNo (JBool b) noMessageCheck m =
           (None, m\<lparr>greetType := Some (setBit_result t bitNo b)\<rparr>)"
  using assms
  by (cases b) (auto simp: setBit_in_def setBit_result_def Let_def)

text \<open>
  Claim C4.  A message holds a greet type of the enumeration.  For any bit position and
  any boolean value, \<open>_setBit\<close> without the override flag either stores a greet type that
  is again enumerated, or throws "Illegal message type!" and leaves the message as it
  was; with the override flag the computed greet type is stored whatever it is.  This
  holds for \<open>GreetMessage\<close> in greeter.js and for \<open>ProtocolMessage\<close> in codec.js.
\<close>

theorem setBit_stays_enumerated_or_throws:
  assumes "greetType m = Some t" and "t \<in> enumerated GREET_TYPE"
    and "greetType pm = Some pt" and "pt \<in> enumerated codec_GREET_TYPE"
  shows
    "(noMessageCheck \<noteq> JBool True \<and> noMessageCheck \<noteq> JNum 1 \<longrightarrow>
        (case GreetMessage_setBit bitNo (JBool b) noMessageCheck m of
           (None, m') \<Rightarrow> (\<exists>t' \<in> enumerated GREET_TYPE. greetType m' = Some t')
                        \<and> m' = m\<lparr>greetType := Some (setBit_result t bitNo b)\<rparr>
         | (Some e, m') \<Rightarrow> e = Error ''Illegal message type!'' \<and> m' = m) \<and>
        (case ProtocolMessage_setBit bitNo (JBool b) noMessageCheck pm of
           (None, m') \<Rightarrow> (\<exists>t' \<in> enumerated codec_GREET_TYPE. greetType m' = Some t')
                        \<and> m' = pm\<lparr>greetType := Some (setBit_result pt bitNo b)\<rparr>
         | (Some e, m') \<Rightarrow> e = Error ''Illegal message type!'' \<and> m' = pm))
     \<and> (noMessageCheck = JBool True \<or> noMessageCheck = JNum 1 \<longrightarrow>
          GreetMessage_setBit bitNo (JBool b) noMessageCheck m =
            (None, m\<lparr>greetType := Some (setBit_result t bitNo b)\<rparr>) \<and>
          ProtocolMessage_setBit bitNo (JBool b) noMessageCheck pm =
            (None, pm\<lparr>greetType := Some (setBit_result pt bitNo b)\<rparr>))"
proof (intro conjI impI)
  assume nc: "noMessageCheck \<noteq> JBool True \<and> noMessageCheck \<noteq> JNum 1"
  show "case GreetMessage_setBit bitNo (JBool b) noMessageCheck m of
           (None, m') \<Rightarrow> (\<exists>t' \<in> enumerated GREET_TYPE. greetType m' = Some t')
                        \<and> m' = m\<lparr>greetType := Some (setBit_result t bitNo b)\<rparr>
         | (Some e, m') \<Rightarrow> e = Error ''Illegal message type!'' \<and> m' = m"
    using nc assms(1)
    by (simp add: GreetMessage_setBit_def GREET_TYPE_MAPPING_def setBit_in_checked)
  show "case ProtocolMessage_setBit bitNo (JBool b) noMessageCheck pm of
           (None, m') \<Rightarrow> (\<exists>t' \<in> enumerated codec_GREET_TYPE. greetType m' = Some t')
                        \<and> m' = pm\<lparr>greetType := Some (setBit_result pt bitNo b)\<rparr>
         | (Some e, m') \<Rightarrow> e = Error ''Illegal message type!'' \<and> m' = pm"
    using nc assms(3)
    by (simp add: ProtocolMessage_setBit_def codec_GREET_TYPE_MAPPING_def setBit_in_checked)
next
  assume ov: "noMessageCheck = JBool True \<or> noMessageCheck = JNum 1"
  show "GreetMessage_setBit bitNo (JBool b) noMessageCheck m =
          (None, m\<lparr>greetType := Some (setBit_result t bitNo b)\<rparr>)"
    using ov assms(1)
    by (simp add: GreetMessage_setBit_def GREET_TYPE_MAPPING_def setBit_in_override)
  show "ProtocolMessage_setBit bitNo (JBool b) noMessageCheck pm =
          (None, pm\<lparr>greetType := Some (setBit_result pt bitNo b)\<rparr>)"
    using ov assms(3)
    by (simp add: ProtocolMessage_setBit_def codec_GREET_TYPE_MAPPING_def setBit_in_override)
qed

theorem setBit_stays_enumerated_or_throws_witness:
  "greetType (new_GreetMessage\<lparr>greetType := Some [0x00, 0x9c]\<rparr>) = Some [0x00, 0x9c]
   \<and> [0x00, 0x9c] \<in> enumerated GREET_TYPE
   \<and> [0x00, 0x9c] \<in> enumerated codec_GREET_TYPE
   \<and> GreetMessage_setBit INIT_BIT (JBool False) JUndefined
         (new_GreetMessage\<lparr>greetType := Some [0x00, 0x9c]\<rparr>)
       = (None, new_GreetMessage\<lparr>greetType := Some [0x00, 0x1c]\<rparr>)
   \<and> GreetMessage_setBit DOWN_BIT (JBool True) JUndefined
         (new_GreetMessage\<lparr>greetType := Some [0x00, 0x9c]\<rparr>)
       = (Some (Error ''Illegal message type!''),
          new_GreetMessage\<lparr>greetType := Some [0x00, 0x9c]\<rparr>)
   \<and> ProtocolMessage_setBit DOWN_BIT (JBool True) (JBool True)
         (new_GreetMessage\<lparr>greetType := Some [0x00, 0x9c]\<rparr>)
       = (None, new_GreetMessage\<lparr>greetType := Some [0x00, 0x9e]\<rparr>)"
proof -
  let ?m = "new_GreetMessage\<lparr>greetType := Some [0x00, 0x9c]\<rparr>"
  have h1: "greetType ?m = Some [0x00, 0x9c]"
    by simp
  have h2: "[0x00, 0x9c] \<in> enumerated GREET_TYPE"
    by (simp add: enumerated_def GREET_TYPE_def)
  have h3: "[0x00, 0x9c] \<in> enumerated codec_GREET_TYPE"
    by (simp add: enumerated_def codec_GREET_TYPE_def)
  note T = setBit_stays_enumerated_or_throws [OF h1 h2 h1 h3]
  have r1: "setBit_result [0x00, 0x9c] INIT_BIT False = [0x00, 0x1c]"
    by (simp add: setBit_result_def greetTypeFromNumber_def greetTypeToNumber_def shl1_def
        charCodeAt32_def fromCharCode_def INIT_BIT_def)
  have r2: "setBit_result [0x00, 0x9c] DOWN_BIT True = [0x00, 0x9e]"
    by (simp add: setBit_result_def greetTypeFromNumber_def greetTypeToNumber_def shl1_def
        charCodeAt32_def fromCharCode_def DOWN_BIT_def)
  have e1: "[0x00, 0x1c] \<in> enumerated GREET_TYPE"
    by (simp add: enumerated_def GREET_TYPE_def)
  have e2: "[0x00, 0x9e] \<notin> enumerated GREET_TYPE"
    by (simp add: enumerated_def GREET_TYPE_def)
  have c1: "GreetMessage_setBit INIT_BIT (JBool False) JUndefined ?m
              = (None, new_GreetMessage\<lparr>greetType := Some [0x00, 0x1c]\<rparr>)"
    using T [of JUndefined INIT_BIT False] r1 e1
    by (auto split: prod.splits option.splits
        simp: GreetMessage_setBit_def GREET_TYPE_MAPPING_def setBit_in_checked [OF h1])
  have c2: "GreetMessage_setBit DOWN_BIT (JBool True) JUndefined ?m
              = (Some (Error ''Illegal message type!''), ?m)"
    using T [of JUndefined DOWN_BIT True] r2 e2
    by (auto split: prod.splits option.splits)
  have c3: "ProtocolMessage_setBit DOWN_BIT (JBool True) (JBool True) ?m
              = (None, new_GreetMessage\<lparr>greetType := Some [0x00, 0x9e]\<rparr>)"
    using T [of "JBool True" DOWN_BIT True] r2
    by simp
  from h1 h2 h3 c1 c2 c3 show ?thesis
    by blast
qed

section \<open>Inbound messages that omit the local member\<close>

text \<open>
  Claim C5.  While the Greeting is not in state QUIT, a message whose member list is
  non-empty and does not contain the local id makes \<open>_processMessage\<close> return the new
  state QUIT and no message, so that \<open>processIncoming\<close> publishes nothing and moves to
  QUIT; nothing is asked of \<open>dest\<close> and \<open>source\<close>, the test comes first.  A message
  that passes this test and whose \<open>dest\<close> is neither empty nor the local id, or whose
  \<open>source\<close> is the local id, is dropped: \<open>null\<close> is returned, and neither a message
  nor a state change follows.
\<close>

theorem processMessage_omitting_self_quits:
  assumes "g_opState g \<noteq> QUIT"
  shows
    "((\<exists>ms. members m = Some ms \<and> ms \<noteq> [] \<and> g_id g \<notin> set ms) \<longrightarrow>
        processMessage ops g m = Inr (g, Some \<lparr>decodedMessage = None, newState = Some QUIT\<rparr>)
        \<and> applyResult (g, Some \<lparr>decodedMessage = None, newState = Some QUIT\<rparr>)
            = (g\<lparr>g_opState := QUIT\<rparr>, None))
     \<and> (\<not> (\<exists>ms. members m = Some ms \<and> ms \<noteq> [] \<and> g_id g \<notin> set ms) \<longrightarrow>
          (dest m \<noteq> [] \<and> dest m \<noteq> g_id g) \<or> source m = g_id g \<longrightarrow>
            processMessage ops g m = Inr (g, None) \<and> applyResult (g, None) = (g, None))"
proof (intro conjI impI)
  assume "\<exists>ms. members m = Some ms \<and> ms \<noteq> [] \<and> g_id g \<notin> set ms"
  then obtain ms where ms: "members m = Some ms" "ms \<noteq> []" "g_id g \<notin> set ms"
    by blast
  with assms
  show "processMessage ops g m = Inr (g, Some \<lparr>decodedMessage = None, newState = Some QUIT\<rparr>)"
    by (simp add: processMessage_def)
  show "applyResult (g, Some \<lparr>decodedMessage = None, newState = Some QUIT\<rparr>)
          = (g\<lparr>g_opState := QUIT\<rparr>, None)"
    by (simp add: applyResult_def updateOpState_def)
next
  assume member: "\<not> (\<exists>ms. members m = Some ms \<and> ms \<noteq> [] \<and> g_id g \<notin> set ms)"
    and drop: "(dest m \<noteq> [] \<and> dest m \<noteq> g_id g) \<or> source m = g_id g"
  from member
  have "\<not> (case members m of None \<Rightarrow> False | Some ms \<Rightarrow> length ms > 0 \<and> g_id g \<notin> set ms)"
    by (cases "members m") auto
  with assms drop show "processMessage ops g m = Inr (g, None)"
    by (auto simp: processMessage_def)
  show "applyResult (g, None) = (g, None)"
    by (simp add: applyResult_def)
qed


theorem processMessage_omitting_self_quits_witness:
  "processMessage exampleOps readyGreeting
     (new_GreetMessage\<lparr>source := ascii ''2'', dest := ascii ''3'',
        members := Some [ascii ''2'', ascii ''3'']\<rparr>)
     = Inr (readyGreeting, Some \<lparr>decodedMessage = None, newState = Some QUIT\<rparr>)
   \<and> applyResult (readyGreeting, Some \<lparr>decodedMessage = None, newState = Some QUIT\<rparr>)
       = (readyGreeting\<lparr>g_opState := QUIT\<rparr>, None)
   \<and> processMessage exampleOps readyGreeting
       (new_GreetMessage\<lparr>source := ascii ''2'', dest := ascii ''3'',
          members := Some [ascii ''1'', ascii ''2'', ascii ''3'']\<rparr>)
       = Inr (readyGreeting, None)
   \<and> processMessage exampleOps readyGreeting
       (new_GreetMessage\<lparr>source := ascii ''1'', dest := [],
          members := Some [ascii ''1'', ascii ''2'']\<rparr>)
       = Inr (readyGreeting, None)"
proof -
  have ready: "g_opState readyGreeting \<noteq> QUIT" "g_id readyGreeting = ascii ''1''"
    by (simp_all add: readyGreeting_def)
  note claim = processMessage_omitting_self_quits [OF ready(1), where ops = exampleOps]
  show ?thesis
    using
      claim [of "new_GreetMessage\<lparr>source := ascii ''2'', dest := ascii ''3'',
        members := Some [ascii ''2'', ascii ''3'']\<rparr>"]
      claim [of "new_GreetMessage\<lparr>source := ascii ''2'', dest := ascii ''3'',
          members := Some [ascii ''1'', ascii ''2'', ascii ''3'']\<rparr>"]
      claim [of "new_GreetMessage\<lparr>source := ascii ''1'', dest := [],
          members := Some [ascii ''1'', ascii ''2'']\<rparr>"]
    by (simp add: ready(2) ascii_def)
qed

section \<open>The result state of a Greeting\<close>

text \<open>Outside READY, \<open>getResultState\<close> throws before any store is made.\<close>

lemma getResultState_not_READY:
  "g_opState g \<noteq> READY \<Longrightarrow> getResultState g = Inl (Error ''Greeting not yet finished'')"
  by (simp add: getResultState_def)

text \<open>
  In READY the constructor receives the id as \<open>state\<close> and the state code as
  \<open>members\<close>.  A non-empty id fails the test of the state; with an empty id the state
  becomes NULL, and the test of the public keys fails, because the number that stands
  for \<open>members\<close> has no length and the nonce that stands for \<open>ephemeralPubKeys\<close> is
  \<open>null\<close>, empty or a string with one.
\<close>

lemma getResultState_READY_throws:
  assumes "g_opState g = READY"
  shows "\<exists>msg. getResultState g = Inl (AssertionError msg)"
proof (cases "g_id g = []")
  case False
  then show ?thesis
    using assms
    by (simp add: getResultState_def new_GreetStore_def arg_def js_or_def assert_def ebind_def)
next
  case True
  show ?thesis
  proof (cases "am_nonce (askeMember g)")
    case None
    then show ?thesis
      using assms True
      by (simp add: getResultState_def new_GreetStore_def arg_def js_or_def assert_def
          ebind_def strVal_def)
  next
    case (Some n)
    then show ?thesis
      using assms True
      by (simp add: getResultState_def new_GreetStore_def arg_def js_or_def assert_def
          ebind_def strVal_def)
  qed
qed

text \<open>
  Claim C1, on the code as it is.  For the READY Greeting of member \<open>1\<close>,
  \<open>getResultState\<close> does not return a store: the constructor's assertion on the state
  fails.  The claim asks for a READY snapshot of the ASKE and CLIQUES members' fields
  here.
\<close>

theorem getResultState_READY_fails:
  "g_opState readyGreeting = READY \<and>
   getResultState readyGreeting =
     Inl (AssertionError ''tried to create a GreetStore on a state other than NULL or READY'')"
  by (simp add: readyGreeting_def getResultState_def new_GreetStore_def arg_def js_or_def
      assert_def ebind_def ascii_def)

section \<open>The session id is independent of the order of the members\<close>

lemma setProperty_commute:
  assumes "k1 \<noteq> k2"
  shows "setProperty k1 v1 (setProperty k2 v2 obj) = setProperty k2 v2 (setProperty k1 v1 obj)"
proof -
  have tw: "((own obj)(k2 \<mapsto> v2))(k1 \<mapsto> v1) = ((own obj)(k1 \<mapsto> v1))(k2 \<mapsto> v2)"
    using assms by (intro fun_upd_twist) simp
  consider (a) "k1 = ascii ''__proto__''" | (b) "k2 = ascii ''__proto__''"
    | (c) "k1 \<noteq> ascii ''__proto__''" "k2 \<noteq> ascii ''__proto__''"
    by blast
  then show ?thesis
  proof cases
    case a
    from a assms have "k2 \<noteq> ascii ''__proto__''" by simp
    moreover from tw a
    have "((own obj)(k2 \<mapsto> v2))(ascii ''__proto__'' \<mapsto> v1)
            = ((own obj)(ascii ''__proto__'' \<mapsto> v1))(k2 \<mapsto> v2)"
      by simp
    ultimately show ?thesis
      using a by (simp add: setProperty_def)
  next
    case b
    from b assms have "k1 \<noteq> ascii ''__proto__''" by simp
    moreover from tw b
    have "((own obj)(ascii ''__proto__'' \<mapsto> v2))(k1 \<mapsto> v1)
            = ((own obj)(k1 \<mapsto> v1))(ascii ''__proto__'' \<mapsto> v2)"
      by simp
    ultimately show ?thesis
      using b by (simp add: setProperty_def)
  next
    case c
    then show ?thesis
      by (simp add: setProperty_def tw)
  qed
qed

lemma indexed_pairs:
  assumes "length ms = length ns"
  shows "map (\<lambda>i. (ms ! i, nonceAt ns i)) [0 ..< length ms] = zip ms ns"
  using assms
  by (intro nth_equalityI) (simp_all add: nonceAt_def)

lemma mapping_as_fold_of_pairs:
  assumes "length ms = length ns"
  shows "fold (\<lambda>i. setProperty (ms ! i) (nonceAt ns i)) [0 ..< length ms] obj
           = fold (\<lambda>(m, n). setProperty m n) (zip ms ns) obj"
proof -
  have "fold (\<lambda>(m, n). setProperty m n) (map (\<lambda>i. (ms ! i, nonceAt ns i)) [0 ..< length ms]) obj
          = fold (\<lambda>i. setProperty (ms ! i) (nonceAt ns i)) [0 ..< length ms] obj"
    by (simp add: fold_map comp_def)
  then show ?thesis
    by (simp add: indexed_pairs [OF assms])
qed

lemma fold_pairs_permuted:
  assumes "distinct (map fst ps)" and "mset qs = mset ps"
  shows "fold (\<lambda>(m, n). setProperty m n) qs = fold (\<lambda>(m, n). setProperty m n) ps"
proof (rule fold_multiset_equiv [symmetric])
  show "mset ps = mset qs"
    using assms(2) by simp
next
  fix x y
  assume "x \<in> set ps" and "y \<in> set ps"
  show "(case x of (m, n) \<Rightarrow> setProperty m n) \<circ> (case y of (m, n) \<Rightarrow> setProperty m n)
          = (case y of (m, n) \<Rightarrow> setProperty m n) \<circ> (case x of (m, n) \<Rightarrow> setProperty m n)"
  proof (cases "x = y")
    case True
    then show ?thesis by simp
  next
    case False
    obtain m1 n1 m2 n2 where xy: "x = (m1, n1)" "y = (m2, n2)"
      by (cases x, cases y) blast
    with False \<open>x \<in> set ps\<close> \<open>y \<in> set ps\<close> assms(1) have "m1 \<noteq> m2"
      using eq_key_imp_eq_value by fastforce
    then have "setProperty m1 n1 (setProperty m2 n2 obj) = setProperty m2 n2 (setProperty m1 n1 obj)"
      for obj
      by (rule setProperty_commute)
    then show ?thesis
      unfolding xy by (simp add: fun_eq_iff)
  qed
qed

lemma sort_permuted:
  fixes xs ys :: "jsstring list"
  assumes "mset ys = mset xs"
  shows "sort ys = sort xs"
  by (rule properties_for_sort) (simp_all add: assms)

text \<open>
  Claim C8.  \<open>M\<close> is a list of pairwise distinct member ids and \<open>N\<close> the list of their
  nonces, of the same length; \<open>M'\<close> and \<open>N'\<close> are the two lists after one permutation has
  been applied to both, that is, the pairs \<open>(M'[i], N'[i])\<close> are the pairs
  \<open>(M[i], N[i])\<close> in another order.  Then \<open>_computeSid\<close> gives the same session id.
\<close>

theorem computeSid_joint_permutation:
  assumes "distinct M" and "length M = length N"
    and "length M' = length N'" and "mset (zip M' N') = mset (zip M N)"
  shows "computeSid hash M' N' = computeSid hash M N"
proof -
  have fst: "map fst (zip M N) = M" "map fst (zip M' N') = M'"
    using assms(2,3) by simp_all
  have "image_mset fst (mset (zip M' N')) = image_mset fst (mset (zip M N))"
    by (simp only: assms(4))
  then have "mset (map fst (zip M' N')) = mset (map fst (zip M N))"
    by (simp only: mset_map)
  then have ms: "mset M' = mset M"
    by (simp only: fst)
  have "distinct (map fst (zip M N))"
    using assms(1) by (simp add: fst)
  then have "fold (\<lambda>(m, n). setProperty m n) (zip M' N')
               = fold (\<lambda>(m, n). setProperty m n) (zip M N)"
    by (rule fold_pairs_permuted) (rule assms(4))
  then show ?thesis
    unfolding computeSid_def Let_def sort_permuted [OF ms]
      mapping_as_fold_of_pairs [OF assms(2)] mapping_as_fold_of_pairs [OF assms(3)]
    by (simp only:)
qed

theorem computeSid_joint_permutation_witness:
  "distinct [ascii ''bob'', ascii ''al'']
   \<and> mset (zip [ascii ''al'', ascii ''bob''] [JStr (ascii ''N1''), JStr (ascii ''N2'')])
       = mset (zip [ascii ''bob'', ascii ''al''] [JStr (ascii ''N2''), JStr (ascii ''N1'')])
   \<and> computeSid (\<lambda>s. s) [ascii ''al'', ascii ''bob''] [JStr (ascii ''N1''), JStr (ascii ''N2'')]
       = computeSid (\<lambda>s. s) [ascii ''bob'', ascii ''al''] [JStr (ascii ''N2''), JStr (ascii ''N1'')]
   \<and> computeSid (\<lambda>s. s) [ascii ''bob'', ascii ''al''] [JStr (ascii ''N2''), JStr (ascii ''N1'')]
       = ascii ''albobN1N2''"
proof -
  have d: "distinct [ascii ''bob'', ascii ''al'']"
    by (simp add: ascii_def)
  have p: "mset (zip [ascii ''al'', ascii ''bob''] [JStr (ascii ''N1''), JStr (ascii ''N2'')])
             = mset (zip [ascii ''bob'', ascii ''al''] [JStr (ascii ''N2''), JStr (ascii ''N1'')])"
    by (simp add: ascii_def)
  have v: "computeSid (\<lambda>s. s) [ascii ''bob'', ascii ''al''] [JStr (ascii ''N2''), JStr (ascii ''N1'')]
             = ascii ''albobN1N2''"
    by code_simp
  from computeSid_joint_permutation [OF d _ _ p, of "\<lambda>s. s"] d p v show ?thesis
    by simp
qed

section \<open>The wire format round trip\<close>

lemma alphabet:
  assumes "i < 64"
  shows "b64index (b64char i) = Some i" and "\<not> isAsciiWhitespace (b64char i)"
    and "b64char i \<noteq> equalsSign"
  using assms by (auto simp: b64char_def b64index_def isAsciiWhitespace_def equalsSign_def)

lemma b64encode_split: "b64encode x = map b64char (sextets x) @ padding x"
  by (induction x rule: b64encode.induct) simp_all

lemma div16: "b < (256::nat) \<Longrightarrow> b div 16 < 16"
  by (simp add: less_mult_imp_div_less)
lemma div64: "c < (256::nat) \<Longrightarrow> c div 64 < 4"
  by (simp add: less_mult_imp_div_less)
lemma div4: "a < (256::nat) \<Longrightarrow> a div 4 < 64"
  by (simp add: less_mult_imp_div_less)

lemma sextet_bounds:
  assumes "a < (256::nat)" and "b < (256::nat)" and "c < (256::nat)"
  shows "a div 4 < 64" and "a mod 4 * 16 + b div 16 < 64" and "b mod 16 * 4 + c div 64 < 64"
    and "c mod 64 < 64" and "a mod 4 * 16 < 64" and "b mod 16 * 4 < 64"
proof -
  have m4: "a mod 4 < 4" and m16: "b mod 16 < 16" by simp_all
  show "a div 4 < 64" using assms(1) by (rule div4)
  show "a mod 4 * 16 + b div 16 < 64" using m4 div16 [OF assms(2)] by linarith
  show "b mod 16 * 4 + c div 64 < 64" using m16 div64 [OF assms(3)] by linarith
  show "c mod 64 < 64" by simp
  show "a mod 4 * 16 < 64" using m4 by linarith
  show "b mod 16 * 4 < 64" using m16 by linarith
qed

lemma sextet_bytes:
  assumes "a < (256::nat)" and "b < (256::nat)" and "c < (256::nat)"
  shows "a div 4 * 4 + (a mod 4 * 16 + b div 16) div 16 = a"
    and "(a mod 4 * 16 + b div 16) mod 16 * 16 + (b mod 16 * 4 + c div 64) div 4 = b"
    and "(b mod 16 * 4 + c div 64) mod 4 * 64 + c mod 64 = c"
    and "a div 4 * 4 + (a mod 4 * 16) div 16 = a"
    and "(a mod 4 * 16 + b div 16) mod 16 * 16 + (b mod 16 * 4) div 4 = b"
proof -
  have b16: "b div 16 < 16" using assms(2) by (rule div16)
  have c64: "c div 64 < 4" using assms(3) by (rule div64)
  have e1: "(a mod 4 * 16 + b div 16) div 16 = a mod 4"
    using b16 by simp
  have e2: "(a mod 4 * 16 + b div 16) mod 16 = b div 16"
    using b16 by simp
  have e3: "(b mod 16 * 4 + c div 64) div 4 = b mod 16"
    using c64 by simp
  have e4: "(b mod 16 * 4 + c div 64) mod 4 = c div 64"
    using c64 by simp
  show "a div 4 * 4 + (a mod 4 * 16 + b div 16) div 16 = a"
    by (simp add: e1)
  show "(a mod 4 * 16 + b div 16) mod 16 * 16 + (b mod 16 * 4 + c div 64) div 4 = b"
    using b16 by (simp add: e3)
  show "(b mod 16 * 4 + c div 64) mod 4 * 64 + c mod 64 = c"
    using c64 by simp
  show "a div 4 * 4 + (a mod 4 * 16) div 16 = a"
    by simp
  show "(a mod 4 * 16 + b div 16) mod 16 * 16 + (b mod 16 * 4) div 4 = b"
    using b16 by simp
qed

lemma sextets_bound: "isBinary x \<Longrightarrow> list_all (\<lambda>s. s < 64) (sextets x)"
proof (induction x rule: sextets.induct)
  case (1 a b c rest)
  then have "a < 256" "b < 256" "c < 256" "isBinary rest"
    by (simp_all add: isBinary_def)
  with 1 show ?case
    by (simp add: sextet_bounds)
next
  case (2 a b)
  then have "a < 256" "b < 256" by (simp_all add: isBinary_def)
  then show ?case by (simp add: sextet_bounds)
next
  case (3 a)
  then have "a < 256" by (simp add: isBinary_def)
  then show ?case by (simp add: sextet_bounds)
qed simp

lemma b64decode_sextets: "isBinary x \<Longrightarrow> b64decode (sextets x) = x"
proof (induction x rule: sextets.induct)
  case (1 a b c rest)
  then have "a < 256" "b < 256" "c < 256" "isBinary rest"
    by (simp_all add: isBinary_def)
  with 1 show ?case
    by (simp add: sextet_bytes)
next
  case (2 a b)
  then have "a < 256" "b < 256" by (simp_all add: isBinary_def)
  then show ?case by (simp add: sextet_bytes)
next
  case (3 a)
  then have "a < 256" by (simp add: isBinary_def)
  then show ?case by (simp add: sextet_bytes)
qed simp

lemma sextets_length: "length (sextets x) mod 4 \<noteq> 1"
  by (induction x rule: sextets.induct) simp_all

lemma encoded_length: "(length (sextets x) + length (padding x)) mod 4 = 0"
  by (induction x rule: sextets.induct) simp_all

lemma padding_cases: "padding x = [] \<or> padding x = [equalsSign] \<or> padding x = [equalsSign, equalsSign]"
  by (induction x rule: padding.induct) simp_all

lemma padding_nonempty_sextets: "padding x \<noteq> [] \<Longrightarrow> sextets x \<noteq> []"
  by (induction x rule: padding.induct) simp_all

lemma stripPadding_body:
  assumes "list_all (\<lambda>c. c \<noteq> equalsSign) body"
    and "(length body + length pad) mod 4 = 0"
    and "pad = [] \<or> pad = [equalsSign] \<or> pad = [equalsSign, equalsSign]"
    and "pad \<noteq> [] \<Longrightarrow> body \<noteq> []"
  shows "stripPadding (body @ pad) = body"
proof -
  have lastb: "body \<noteq> [] \<Longrightarrow> last body \<noteq> equalsSign"
    using assms(1) last_in_set [of body] by (auto simp: list_all_iff)
  from assms(3) consider "pad = []" | "pad = [equalsSign]" | "pad = [equalsSign, equalsSign]"
    by blast
  then show ?thesis
  proof cases
    case 1
    then show ?thesis
      using lastb by (auto simp: stripPadding_def)
  next
    case 2
    with assms(4) have "body \<noteq> []" by simp
    with 2 assms(2) lastb show ?thesis
      by (simp add: stripPadding_def butlast_append)
  next
    case 3
    with assms(4) have "body \<noteq> []" by simp
    with 3 assms(2) lastb show ?thesis
      by (simp add: stripPadding_def butlast_append)
  qed
qed

lemma atob_b64encode:
  assumes "isBinary x"
  shows "atob (b64encode x) = Inr x"
proof -
  let ?body = "map b64char (sextets x)"
  have bound: "list_all (\<lambda>s. s < 64) (sextets x)"
    using assms by (rule sextets_bound)
  have nows: "filter (\<lambda>c. \<not> isAsciiWhitespace c) (b64encode x) = b64encode x"
  proof -
    have "\<not> isAsciiWhitespace c" if "c \<in> set (b64encode x)" for c
    proof -
      from that have "c \<in> b64char ` set (sextets x) \<or> c \<in> set (padding x)"
        by (auto simp: b64encode_split)
      then show ?thesis
      proof
        assume "c \<in> b64char ` set (sextets x)"
        then show ?thesis
          using bound alphabet(2) by (auto simp: list_all_iff)
      next
        assume "c \<in> set (padding x)"
        with padding_cases [of x] have "c = equalsSign"
          by auto
        then show ?thesis
          by (simp add: equalsSign_def isAsciiWhitespace_def)
      qed
    qed
    then show ?thesis
      by (simp add: filter_id_conv)
  qed
  have noeq: "list_all (\<lambda>c. c \<noteq> equalsSign) ?body"
    using bound alphabet(3) by (auto simp: list_all_iff)
  have strip: "stripPadding (b64encode x) = ?body"
    unfolding b64encode_split
    using noeq encoded_length [of x] padding_cases [of x] padding_nonempty_sextets [of x]
    by (intro stripPadding_body) simp_all
  have valid: "list_all (\<lambda>c. b64index c \<noteq> None) ?body"
    using bound alphabet(1) by (auto simp: list_all_iff)
  have undo: "map (\<lambda>c. the (b64index c)) ?body = sextets x"
    using bound alphabet(1) by (auto simp: list_all_iff map_idI)
  show ?thesis
    using sextets_length [of x] valid
    by (simp add: atob_def nows strip undo b64decode_sextets [OF assms] del: map_map)
qed

lemma sliceToLast_frame:
  "sliceToLast (PROTOCOL_PREFIX @ ascii '':'' @ b @ ascii ''.'') (Suc (length PROTOCOL_PREFIX)) = b"
  by (simp add: sliceToLast_def PROTOCOL_PREFIX_def ascii_def)

text \<open>
  Claim C9.  For a binary string \<open>x\<close> (every code unit below 256), \<open>tlvToWire\<close>
  returns the frame \<open>?mpENC:\<close>, base64 of \<open>x\<close>, \<open>.\<close>, and \<open>wireToTLV\<close> of that frame
  is \<open>x\<close>.
\<close>

theorem wireToTLV_tlvToWire:
  assumes "isBinary x"
  shows "tlvToWire x = Inr (PROTOCOL_PREFIX @ ascii '':'' @ b64encode x @ ascii ''.'')
         \<and> ebind (tlvToWire x) wireToTLV = Inr x"
  using assms
  by (simp add: tlvToWire_def wireToTLV_def btoa_def ebind_def sliceToLast_frame atob_b64encode)

theorem wireToTLV_tlvToWire_witness:
  "isBinary (ascii ''Hi!'' @ [0, 255])
   \<and> tlvToWire (ascii ''Hi!'' @ [0, 255]) = Inr (ascii ''?mpENC:SGkhAP8=.'')
   \<and> wireToTLV (ascii ''?mpENC:SGkhAP8=.'') = Inr (ascii ''Hi!'' @ [0, 255])"
proof -
  have b: "isBinary (ascii ''Hi!'' @ [0, 255])"
    by (simp add: isBinary_def ascii_def)
  have e: "PROTOCOL_PREFIX @ ascii '':'' @ b64encode (ascii ''Hi!'' @ [0, 255]) @ ascii ''.''
             = ascii ''?mpENC:SGkhAP8=.''"
    by (simp add: PROTOCOL_PREFIX_def ascii_def b64char_def equalsSign_def)
  note rt = wireToTLV_tlvToWire [OF b]
  from rt e have w: "tlvToWire (ascii ''Hi!'' @ [0, 255]) = Inr (ascii ''?mpENC:SGkhAP8=.'')"
    by (simp only:)
  from rt have "ebind (tlvToWire (ascii ''Hi!'' @ [0, 255])) wireToTLV
                  = Inr (ascii ''Hi!'' @ [0, 255])"
    by (rule conjunct2)
  then have "wireToTLV (ascii ''?mpENC:SGkhAP8=.'') = Inr (ascii ''Hi!'' @ [0, 255])"
    unfolding w ebind_def by simp
  with b w show ?thesis
    by (simp only: simp_thms)
qed

section \<open>The data handed to the cipher\<close>

subsection \<open>Lengths, shifts and the 32-bit padding size\<close>

lemma bin2short_pair: "bin2short (a # b # rest) = push_bit 8 a OR b"
  by (simp add: bin2short_def charCodeAt_def)

lemma short2bin_small: "n < 65536 \<Longrightarrow> short2bin n = [n div 256, n mod 256]"
  by (simp add: short2bin_def fromCharCode_def)

lemma or_bytes:
  assumes "b < 256"
  shows "push_bit 8 (a::nat) OR b = a * 256 + b"
proof -
  have b: "take_bit 8 b = b"
    using assms by (simp add: take_bit_nat_eq_self)
  have "push_bit 8 a AND take_bit 8 b = 0"
    by (auto simp: bit_eq_iff bit_simps)
  then have "push_bit 8 a + b = push_bit 8 a OR b"
    unfolding b by (rule disjunctive_add_eq_or)
  then show ?thesis
    by (simp add: push_bit_eq_mult)
qed

lemma bin2short_short2bin: "n < 65536 \<Longrightarrow> bin2short (short2bin n @ rest) = n"
  by (simp add: short2bin_small bin2short_pair or_bytes)

lemma shl1_small:
  assumes "k < 31"
  shows "sint (shl1 (int k)) = 2 ^ k"
proof -
  have "(2::int) ^ k < 2 ^ 31"
    using assms by (intro power_strict_increasing) auto
  moreover have "- (2 ^ 31) \<le> (2::int) ^ k"
    by (rule order_trans [of _ 0]) simp_all
  ultimately have "signed_take_bit 31 ((2::int) ^ k) = 2 ^ k"
    by (intro signed_take_bit_int_eq_self)
  moreover have "(2::32 word) ^ k = word_of_int (2 ^ k)"
    by simp
  then have "sint ((2::32 word) ^ k) = signed_take_bit 31 ((2::int) ^ k)"
    by (simp only: sint_sbintrunc') simp
  moreover have "nat (int k mod 32) = k"
    using assms by simp
  ultimately show ?thesis
    by (simp add: shl1_def push_bit_eq_mult)
qed

lemma toInt32_id: "- (2 ^ 31) \<le> n \<Longrightarrow> n < 2 ^ 31 \<Longrightarrow> toInt32 n = n"
  by (simp add: toInt32_def sint_sbintrunc' signed_take_bit_int_eq_self)

subsection \<open>The rounded quotient and the power of two above it\<close>

lemma ceilDiv_covers:
  assumes "0 < b"
  shows "a \<le> b * ceilDiv a b"
proof -
  have "a + b - 1 = b * ((a + b - 1) div b) + (a + b - 1) mod b"
    by simp
  moreover have "(a + b - 1) mod b < b"
    using assms by simp
  ultimately show ?thesis
    unfolding ceilDiv_def by linarith
qed

lemma ceilDiv_tight:
  assumes "0 < b" and "0 < a"
  shows "b * ceilDiv a b < a + b"
proof -
  have "b * ((a + b - 1) div b) \<le> a + b - 1"
    by simp
  then show ?thesis
    unfolding ceilDiv_def using assms by linarith
qed

lemma ceilDiv_pos:
  assumes "0 < b" and "0 < a"
  shows "0 < ceilDiv a b"
  unfolding ceilDiv_def using assms by (simp add: div_greater_zero_iff)

lemma ceilDiv_le:
  assumes "0 < b" and "0 < a"
  shows "ceilDiv a b \<le> a"
proof -
  have "a \<le> a * b"
    using assms by simp
  then have "a + b - 1 < a * b + b"
    using assms by linarith
  then have "a + b - 1 < (a + 1) * b"
    by (simp add: algebra_simps)
  then have "(a + b - 1) div b < a + 1"
    using assms by (simp only: div_less_iff_less_mult)
  then show ?thesis
    by (simp add: ceilDiv_def)
qed

lemma ceilDiv_two:
  assumes "0 < b" and "b < a"
  shows "2 \<le> ceilDiv a b"
proof -
  have "2 * b \<le> a + b - 1"
    using assms by simp
  then show ?thesis
    unfolding ceilDiv_def using assms by (simp only: less_eq_div_iff_mult_less_eq)
qed

lemma ceilDiv_one:
  assumes "0 < a" and "a \<le> b"
  shows "ceilDiv a b = 1"
  unfolding ceilDiv_def using assms by (simp add: div_eq_dividend_iff le_div_geq)

text \<open>The multiple of \<open>p\<close> that the padding reaches.\<close>

lemma padded_length_bounds:
  assumes "0 < p" and "0 < n"
  defines "k \<equiv> ceillog2 (ceilDiv n p)"
  shows "n \<le> p * 2 ^ k"
    and "\<And>j. n \<le> p * 2 ^ j \<Longrightarrow> p * 2 ^ k \<le> p * 2 ^ j"
    and "p * 2 ^ k < 2 * n \<or> p * 2 ^ k = p"
proof -
  let ?c = "ceilDiv n p"
  have c: "0 < ?c"
    using assms by (simp add: ceilDiv_pos)
  have "n \<le> p * ?c"
    using assms by (simp add: ceilDiv_covers)
  also have "\<dots> \<le> p * 2 ^ k"
    unfolding k_def by (intro mult_le_mono2 le_two_power_ceillog2)
  finally show "n \<le> p * 2 ^ k" .
  show "p * 2 ^ k \<le> p * 2 ^ j" if "n \<le> p * 2 ^ j" for j
  proof -
    have "?c \<le> 2 ^ j"
    proof (rule ccontr)
      assume "\<not> ?c \<le> 2 ^ j"
      then have "2 ^ j + 1 \<le> ?c" by simp
      then have "p * (2 ^ j + 1) \<le> p * ?c"
        by (intro mult_le_mono2)
      also have "p * ?c < n + p"
        using assms by (simp add: ceilDiv_tight)
      finally show False
        using that by (simp add: algebra_simps)
    qed
    then have "k \<le> j"
      unfolding k_def using c by (simp add: ceillog2_le_iff)
    then show ?thesis
      by (simp add: power_increasing)
  qed
  show "p * 2 ^ k < 2 * n \<or> p * 2 ^ k = p"
  proof (cases "n \<le> p")
    case True
    then have "?c = 1"
      using assms by (simp add: ceilDiv_one)
    then show ?thesis
      by (simp add: k_def)
  next
    case False
    then have "2 \<le> ?c"
      using assms by (simp add: ceilDiv_two)
    then have "1 \<le> k"
      unfolding k_def using c by (simp add: ceillog2_ge_iff)
    then obtain k' where k': "k = Suc k'"
      by (cases k) auto
    have "2 ^ k < 2 * ?c"
      unfolding k_def using c by (simp add: two_power_ceillog2_gt)
    then have "2 ^ k' + 1 \<le> ?c"
      by (simp add: k')
    then have "p * (2 ^ k' + 1) \<le> p * ?c"
      by (intro mult_le_mono2)
    also have "p * ?c < n + p"
      using assms by (simp add: ceilDiv_tight)
    finally have "p * 2 ^ k' < n"
      by (simp add: algebra_simps)
    then have "p * 2 ^ k < 2 * n"
      by (simp add: k')
    then show ?thesis ..
  qed
qed


lemma ceilDiv_ceiling:
  assumes "0 < b" and "0 < a"
  shows "\<lceil>real a / real b\<rceil> = int (ceilDiv a b)"
proof (rule ceiling_unique)
  have "real (b * ceilDiv a b) < real (a + b)"
    using ceilDiv_tight [OF assms] by (simp only: of_nat_less_iff)
  then have "real (ceilDiv a b) * real b - real b < real a"
    by (simp add: algebra_simps)
  then have "(real (ceilDiv a b) - 1) * real b < real a"
    by (simp add: algebra_simps)
  then show "real_of_int (int (ceilDiv a b)) - 1 < real a / real b"
    using assms by (simp add: pos_less_divide_eq)
  have "real a \<le> real (b * ceilDiv a b)"
    using ceilDiv_covers [OF assms(1), of a] by (simp only: of_nat_le_iff)
  then show "real a / real b \<le> real_of_int (int (ceilDiv a b))"
    using assms by (simp add: pos_divide_le_eq mult.commute)
qed

lemma paddedData_positive:
  assumes "0 < P" and "P \<le> int maxStringLength" and "0 < length d" and "length d \<le> 65537"
  shows "paddedData d P =
           Inr (d @ replicate (nat P * 2 ^ ceillog2 (ceilDiv (length d) (nat P)) - length d) 0)"
proof -
  define p where "p = nat P"
  define k where "k = ceillog2 (ceilDiv (length d) p)"
  have p: "0 < p" "P = int p"
    using assms by (simp_all add: p_def)
  have "ceilDiv (length d) p \<le> 2 ^ 17"
    using ceilDiv_le [OF p(1) assms(3)] assms(4) by simp
  then have "k \<le> 17"
    unfolding k_def using ceilDiv_pos [OF p(1) assms(3)] by (simp only: ceillog2_le_iff)
  then have shift: "sint (shl1 (int k)) = 2 ^ k"
    by (intro shl1_small) simp
  have lower: "length d \<le> p * 2 ^ k"
    unfolding k_def using p(1) assms(3) by (rule padded_length_bounds(1))
  have "p * 2 ^ k < 2 * length d \<or> p * 2 ^ k = p"
    unfolding k_def using p(1) assms(3) by (rule padded_length_bounds(3))
  moreover have "p \<le> maxStringLength"
    using assms(2) by (simp add: p_def)
  ultimately have limit: "p * 2 ^ k \<le> maxStringLength"
    using assms(4) by (auto simp: maxStringLength_def)
  then have upper: "p * 2 ^ k < 2 ^ 32"
    by (simp add: maxStringLength_def)
  have "int p * 2 ^ k = int (p * 2 ^ k)"
    by simp
  then have num: "P * sint (shl1 (int k)) + 1 - int (length d) = int (p * 2 ^ k - length d) + 1"
    using lower by (simp only: shift p(2))
  have "p * 2 ^ k - length d + 1 < 2 ^ 32"
    using upper lower assms(3) by linarith
  then have "int (p * 2 ^ k - length d + 1) < int (2 ^ 32)"
    by (simp only: of_nat_less_iff)
  then have "int (p * 2 ^ k - length d) + 1 < 2 ^ 32"
    by simp
  then have range: "\<not> (int (p * 2 ^ k - length d) + 1 < 0
                     \<or> int (p * 2 ^ k - length d) + 1 \<ge> 2 ^ 32)"
    by simp
  have natnum: "nat (int (p * 2 ^ k - length d) + 1) - 1 = p * 2 ^ k - length d"
    by simp
  have fits: "\<not> length d + (p * 2 ^ k - length d) > maxStringLength"
    using limit lower by simp
  have "paddedData d P =
          (if P * sint (shl1 (int k)) + 1 - int (length d) < 0
              \<or> P * sint (shl1 (int k)) + 1 - int (length d) \<ge> 2 ^ 32
           then Inl RangeError
           else if length d + (nat (P * sint (shl1 (int k)) + 1 - int (length d)) - 1)
                     > maxStringLength
           then Inl RangeError
           else Inr (d @ replicate (nat (P * sint (shl1 (int k)) + 1 - int (length d)) - 1) 0))"
    using assms(1) by (simp add: paddedData_def Let_def k_def p_def)
  also have "\<dots> = (if length d + (p * 2 ^ k - length d) > maxStringLength
                      then Inl RangeError
                      else Inr (d @ replicate (p * 2 ^ k - length d) 0))"
    unfolding num using range by (simp only: if_False natnum)
  also have "\<dots> = Inr (d @ replicate (p * 2 ^ k - length d) 0)"
    using fits by (simp only: if_False)
  finally show ?thesis
    by (simp only: k_def p_def)
qed


subsection \<open>What \<open>_encryptRaw\<close> hands to the cipher\<close>

lemma length_short2bin: "length (short2bin n) = 2"
  by (simp add: short2bin_def fromCharCode_def)

lemma encryptRawArguments_too_large:
  assumes "65535 \<le> length d"
  shows "encryptRawArguments prim d key P =
           Inl (AssertionError ''Message size too large for encryption scheme.'')"
  using assms by (simp add: encryptRawArguments_def assert_def ebind_def Let_def)

lemma encryptRawArguments_unpadded:
  assumes "length d < 65535" and "toInt32 P = 0"
  shows "encryptRawArguments prim d key P =
           Inr \<lparr>aes_data = short2bin (length d) @ d, aes_key = key,
                aes_counter = randomString prim 12 @ [0, 0, 0, 0]\<rparr>"
  using assms
  by (simp add: encryptRawArguments_def assert_def ebind_def Let_def paddedData_def
      string2bytes_def)

lemma encryptRawArguments_padded:
  assumes "length d < 65535" and "0 < P" and "P \<le> int maxStringLength"
  shows "encryptRawArguments prim d key P =
           Inr \<lparr>aes_data = short2bin (length d) @ d
                  @ replicate (nat P * 2 ^ ceillog2 (ceilDiv (length d + 2) (nat P))
                               - (length d + 2)) 0,
                aes_key = key, aes_counter = randomString prim 12 @ [0, 0, 0, 0]\<rparr>"
proof -
  have P: "toInt32 P = P"
    using assms by (intro toInt32_id) (simp_all add: maxStringLength_def)
  have "paddedData (short2bin (length d) @ d) P =
          Inr ((short2bin (length d) @ d)
               @ replicate (nat P * 2 ^ ceillog2 (ceilDiv (length (short2bin (length d) @ d))
                                                    (nat P))
                            - length (short2bin (length d) @ d)) 0)"
    using assms by (intro paddedData_positive) (simp_all add: length_short2bin)
  then show ?thesis
    using assms(1)
    by (simp add: encryptRawArguments_def assert_def ebind_def Let_def P string2bytes_def
        length_short2bin add.commute)
qed


text \<open>\<open>_encryptRaw\<close> then calls the cipher on these and returns what it gives with
  the nonce.\<close>

lemma encryptRaw_cipher:
  assumes "encryptRawArguments prim d key P
             = Inr \<lparr>aes_data = D, aes_key = k, aes_counter = ctr\<rparr>"
  shows "encryptRaw prim d key P
           = ebind (AES_CTR_encrypt prim D k ctr)
               (\<lambda>x. Inr \<lparr>enc_data = x, enc_iv = randomString prim 12\<rparr>)"
  by (simp add: encryptRaw_def assms ebind_def bytes2string_def)

lemma toInt32_zero: "toInt32 0 = 0"
  by (simp add: toInt32_def)

lemma padded_formula:
  assumes "0 < P" and "0 < n"
  shows "int (nat P * 2 ^ ceillog2 (ceilDiv n (nat P)))
           = P * 2 ^ nat \<lceil>log 2 (real_of_int \<lceil>real n / real_of_int P\<rceil>)\<rceil>"
proof -
  have p: "0 < nat P" "real_of_int P = real (nat P)"
    using assms by simp_all
  have c: "ceilDiv n (nat P) \<noteq> 0"
    using ceilDiv_pos [OF p(1) assms(2)] by simp
  have "\<lceil>real n / real_of_int P\<rceil> = int (ceilDiv n (nat P))"
    unfolding p(2) using p(1) assms(2) by (rule ceilDiv_ceiling)
  then have "nat \<lceil>log 2 (real_of_int \<lceil>real n / real_of_int P\<rceil>)\<rceil>
               = ceillog2 (ceilDiv n (nat P))"
    using c by (simp add: ceillog2_def)
  then show ?thesis
    using assms(1) by simp
qed

text \<open>
  Claim C7.  For a record stream \<open>d\<close> shorter than 65535 bytes and a padding size \<open>P\<close>
  from 1 up to the longest string the engine makes, \<open>_encryptRaw\<close> returns what the
  cipher gives for the length prefix, \<open>d\<close> and then zero bytes only, under the key and
  the counter block of the nonce; this data has
  \<open>P * 2^\<lceil>log\<^sub>2 \<lceil>(len d + 2) / P\<rceil>\<rceil>\<close> bytes, which is the least \<open>P * 2^j\<close> that is at
  least the prefixed length.  For \<open>P = 0\<close> the data is the length prefix and \<open>d\<close>.
\<close>

theorem encryptRaw_padded_length:
  assumes "length d < 65535"
  shows "(0 < P \<and> P \<le> int maxStringLength \<longrightarrow>
            (\<exists>z. encryptRaw prim d key P
                   = ebind (AES_CTR_encrypt prim (short2bin (length d) @ d @ replicate z 0) key
                              (randomString prim 12 @ [0, 0, 0, 0]))
                       (\<lambda>x. Inr \<lparr>enc_data = x, enc_iv = randomString prim 12\<rparr>)
               \<and> int (length (short2bin (length d) @ d @ replicate z 0))
                     = P * 2 ^ nat \<lceil>log 2 (real_of_int \<lceil>real (length d + 2) / real_of_int P\<rceil>)\<rceil>
               \<and> (\<forall>j. int (length d + 2) \<le> P * 2 ^ j
                        \<longrightarrow> int (length (short2bin (length d) @ d @ replicate z 0))
                              \<le> P * 2 ^ j)))
       \<and> encryptRaw prim d key 0
           = ebind (AES_CTR_encrypt prim (short2bin (length d) @ d) key
                      (randomString prim 12 @ [0, 0, 0, 0]))
               (\<lambda>x. Inr \<lparr>enc_data = x, enc_iv = randomString prim 12\<rparr>)"
proof (intro conjI impI)
  assume P: "0 < P \<and> P \<le> int maxStringLength"
  define p where "p = nat P"
  define L where "L = p * 2 ^ ceillog2 (ceilDiv (length d + 2) p)"
  define D where "D = short2bin (length d) @ d @ replicate (L - (length d + 2)) 0"
  have p: "0 < p" "P = int p"
    using P by (simp_all add: p_def)
  have "encryptRawArguments prim d key P
          = Inr \<lparr>aes_data = D, aes_key = key,
                 aes_counter = randomString prim 12 @ [0, 0, 0, 0]\<rparr>"
    unfolding D_def L_def p_def using assms P by (intro encryptRawArguments_padded) simp_all
  then have call: "encryptRaw prim d key P
          = ebind (AES_CTR_encrypt prim D key (randomString prim 12 @ [0, 0, 0, 0]))
              (\<lambda>x. Inr \<lparr>enc_data = x, enc_iv = randomString prim 12\<rparr>)"
    by (rule encryptRaw_cipher)
  have lower: "length d + 2 \<le> L"
    unfolding L_def using p(1) by (intro padded_length_bounds(1)) simp_all
  then have len: "length D = L"
    by (simp add: D_def length_short2bin)
  have formula: "int L = P * 2 ^ nat \<lceil>log 2 (real_of_int \<lceil>real (length d + 2) / real_of_int P\<rceil>)\<rceil>"
    unfolding L_def p_def using P by (intro padded_formula) simp_all
  have least: "int L \<le> P * 2 ^ j" if "int (length d + 2) \<le> P * 2 ^ j" for j
  proof -
    have "int (length d + 2) \<le> int (p * 2 ^ j)"
      using that by (simp add: p(2))
    then have "length d + 2 \<le> p * 2 ^ j"
      by (simp only: of_nat_le_iff)
    then have "L \<le> p * 2 ^ j"
      unfolding L_def using p(1) by (intro padded_length_bounds(2)) simp_all
    then have "int L \<le> int (p * 2 ^ j)"
      by (simp only: of_nat_le_iff)
    then show ?thesis
      by (simp add: p(2))
  qed
  show "\<exists>z. encryptRaw prim d key P
               = ebind (AES_CTR_encrypt prim (short2bin (length d) @ d @ replicate z 0) key
                          (randomString prim 12 @ [0, 0, 0, 0]))
                   (\<lambda>x. Inr \<lparr>enc_data = x, enc_iv = randomString prim 12\<rparr>)
           \<and> int (length (short2bin (length d) @ d @ replicate z 0))
                 = P * 2 ^ nat \<lceil>log 2 (real_of_int \<lceil>real (length d + 2) / real_of_int P\<rceil>)\<rceil>
           \<and> (\<forall>j. int (length d + 2) \<le> P * 2 ^ j
                    \<longrightarrow> int (length (short2bin (length d) @ d @ replicate z 0))
                          \<le> P * 2 ^ j)"
  proof (intro exI [of _ "L - (length d + 2)"] conjI allI impI)
    show "encryptRaw prim d key P
            = ebind (AES_CTR_encrypt prim
                       (short2bin (length d) @ d @ replicate (L - (length d + 2)) 0) key
                       (randomString prim 12 @ [0, 0, 0, 0]))
                (\<lambda>x. Inr \<lparr>enc_data = x, enc_iv = randomString prim 12\<rparr>)"
      using call by (simp only: D_def)
    show "int (length (short2bin (length d) @ d @ replicate (L - (length d + 2)) 0))
            = P * 2 ^ nat \<lceil>log 2 (real_of_int \<lceil>real (length d + 2) / real_of_int P\<rceil>)\<rceil>"
      using len formula by (simp only: D_def)
    show "int (length (short2bin (length d) @ d @ replicate (L - (length d + 2)) 0)) \<le> P * 2 ^ j"
      if "int (length d + 2) \<le> P * 2 ^ j" for j
      using len least [OF that] by (simp only: D_def)
  qed
next
  have "encryptRawArguments prim d key 0
          = Inr \<lparr>aes_data = short2bin (length d) @ d, aes_key = key,
                 aes_counter = randomString prim 12 @ [0, 0, 0, 0]\<rparr>"
    using assms by (simp add: encryptRawArguments_unpadded toInt32_zero)
  then show "encryptRaw prim d key 0
          = ebind (AES_CTR_encrypt prim (short2bin (length d) @ d) key
                     (randomString prim 12 @ [0, 0, 0, 0]))
              (\<lambda>x. Inr \<lparr>enc_data = x, enc_iv = randomString prim 12\<rparr>)"
    by (rule encryptRaw_cipher)
qed

subsection \<open>Key and counter block\<close>

text \<open>
  Claim C6.  Whenever \<open>authEncrypt\<close> returns, it has called the cipher on the padded
  record stream with the whole group key of the store as key, whatever its length, and
  with the nonce followed by four zero bytes as counter block; the nonce is the \<open>iv\<close>
  that goes into the \<open>MESSAGE_IV\<close> record.
\<close>

theorem authEncrypt_aes_arguments:
  assumes "authEncrypt prim tbl self m = Inr c"
  shows "\<exists>b a x e. encodeUtf8 (pm_body m) = Inr b
           \<and> encryptRawArguments prim (rawBody tbl (pm_parents m) b)
                 (ss_groupKey (greetStore self)) (paddingSize self) = Inr a
           \<and> AES_CTR_encrypt prim (aes_data a) (aes_key a) (aes_counter a) = Inr x
           \<and> aes_key a = ss_groupKey (greetStore self)
           \<and> aes_counter a = randomString prim 12 @ [0, 0, 0, 0]
           \<and> encryptRaw prim (rawBody tbl (pm_parents m) b)
                 (ss_groupKey (greetStore self)) (paddingSize self) = Inr e
           \<and> enc_data e = x \<and> enc_iv e = randomString prim 12"
proof -
  from assms obtain b where b: "encodeUtf8 (pm_body m) = Inr b"
    by (cases "encodeUtf8 (pm_body m)")
      (auto simp: authEncrypt_def Let_def ebind_def assert_def split: if_splits)
  let ?d = "rawBody tbl (pm_parents m) b"
  let ?key = "ss_groupKey (greetStore self)"
  from assms b obtain e where e: "encryptRaw prim ?d ?key (paddingSize self) = Inr e"
    by (cases "encryptRaw prim ?d ?key (paddingSize self)")
      (auto simp: authEncrypt_def Let_def ebind_def assert_def split: if_splits)
  then obtain a where a: "encryptRawArguments prim ?d ?key (paddingSize self) = Inr a"
    by (cases "encryptRawArguments prim ?d ?key (paddingSize self)")
      (auto simp: encryptRaw_def ebind_def)
  with e obtain x where x: "AES_CTR_encrypt prim (aes_data a) (aes_key a) (aes_counter a) = Inr x"
    by (cases "AES_CTR_encrypt prim (aes_data a) (aes_key a) (aes_counter a)")
      (auto simp: encryptRaw_def ebind_def)
  from a have "aes_key a = ?key \<and> aes_counter a = randomString prim 12 @ [0, 0, 0, 0]"
    by (auto simp: encryptRawArguments_def Let_def ebind_def assert_def string2bytes_def
        split: if_splits sum.splits)
  moreover from e a x have "enc_data e = x \<and> enc_iv e = randomString prim 12"
    by (auto simp: encryptRaw_def ebind_def bytes2string_def)
  ultimately show ?thesis
    using b a x e by blast
qed

lemma example_returns:
  "\<exists>c. authEncrypt examplePrimitives exampleTable
         \<lparr>greetStore = exampleStore, paddingSize = 0\<rparr> exampleMessage = Inr c"
  by (simp add: authEncrypt_def examplePrimitives_def exampleTable_def exampleStore_def
      exampleMessage_def Let_def ebind_def assert_def ascii_def encryptRaw_def
      encryptRawArguments_def toInt32_zero paddedData_def exampleCipher_def isBinary_def
      rawBody_def encodeTLV_def short2bin_def fromCharCode_def utf8_def
      signDataMessage_def encodeWirePacket_def tlvToWire_def btoa_def
      ENCODED_VERSION_def ENCODED_TYPE_DATA_def TLV_PROTOCOL_VERSION_def TLV_MESSAGE_TYPE_def
      TLV_MESSAGE_IV_def TLV_SIDKEY_HINT_def TLV_MESSAGE_SIGNATURE_def exampleHash_def
      exampleSignature_def string2bytes_def bytes2string_def list_all_iff)


subsection \<open>The length prefix\<close>

text \<open>Whatever the padding size, the padding either cannot be built or is a run of
  zero bytes after the data.\<close>

lemma paddedData_shape:
  "paddedData D P = Inl RangeError \<or> (\<exists>z. paddedData D P = Inr (D @ replicate z 0))"
proof (cases "P = 0")
  case True
  then have "paddedData D P = Inr (D @ replicate 0 0)"
    by (simp add: paddedData_def)
  then show ?thesis
    by blast
next
  case False
  then show ?thesis
    by (simp add: paddedData_def Let_def)
qed

lemma encryptRaw_shape:
  assumes "length d < 65535"
  shows "encryptRaw prim d key P = Inl RangeError
         \<or> (\<exists>z. encryptRaw prim d key P
                  = ebind (AES_CTR_encrypt prim (short2bin (length d) @ d @ replicate z 0) key
                             (randomString prim 12 @ [0, 0, 0, 0]))
                      (\<lambda>x. Inr \<lparr>enc_data = x, enc_iv = randomString prim 12\<rparr>))"
proof -
  let ?D = "short2bin (length d) @ d"
  from paddedData_shape [of ?D "toInt32 P"] show ?thesis
  proof
    assume "paddedData ?D (toInt32 P) = Inl RangeError"
    with assms have "encryptRaw prim d key P = Inl RangeError"
      by (simp add: encryptRaw_def encryptRawArguments_def assert_def ebind_def Let_def)
    then show ?thesis ..
  next
    assume "\<exists>z. paddedData ?D (toInt32 P) = Inr (?D @ replicate z 0)"
    then obtain z where "paddedData ?D (toInt32 P) = Inr (?D @ replicate z 0)" ..
    with assms have "encryptRawArguments prim d key P
        = Inr \<lparr>aes_data = short2bin (length d) @ d @ replicate z 0, aes_key = key,
               aes_counter = randomString prim 12 @ [0, 0, 0, 0]\<rparr>"
      by (simp add: encryptRawArguments_def assert_def ebind_def Let_def string2bytes_def)
    then have "encryptRaw prim d key P
        = ebind (AES_CTR_encrypt prim (short2bin (length d) @ d @ replicate z 0) key
                   (randomString prim 12 @ [0, 0, 0, 0]))
            (\<lambda>x. Inr \<lparr>enc_data = x, enc_iv = randomString prim 12\<rparr>)"
      by (rule encryptRaw_cipher)
    then show ?thesis
      by blast
  qed
qed

lemma prefix_exact:
  assumes "length d < 65535"
  shows "bin2short (take 2 (short2bin (length d) @ d @ replicate z 0)) = length d"
proof -
  have "bin2short (short2bin (length d) @ []) = length d"
    using assms by (intro bin2short_short2bin) simp
  then show ?thesis
    by (simp add: length_short2bin)
qed

text \<open>\<open>_decryptRaw\<close> reads the prefix and cuts the stream out of the padded data.\<close>

lemma decryptRaw_padded:
  assumes "length d < 65535"
    and "AES_CTR_decrypt prim x key (take 12 iv @ [0, 0, 0, 0])
           = Inr (short2bin (length d) @ d @ replicate z 0)"
  shows "decryptRaw prim x key iv = Inr d"
  using assms(2) prefix_exact [OF assms(1), of z]
  by (simp add: decryptRaw_def string2bytes_def bytes2string_def ebind_def Let_def
      substring_def length_short2bin)

lemma encodeUtf8_ascii: "list_all (\<lambda>c. c < 128) s \<Longrightarrow> encodeUtf8 s = Inr s"
  by (induction s) (simp_all add: utf8_def ebind_def)

lemma authEncrypt_too_large:
  assumes "encodeUtf8 (pm_body m) = Inr b"
    and "65535 \<le> length (rawBody tbl (pm_parents m) b)"
  shows "\<exists>e. authEncrypt prim tbl self m = Inl e"
  using assms
  by (simp add: authEncrypt_def Let_def ebind_def assert_def encryptRaw_def
      encryptRawArguments_too_large)

lemma authEncrypt_encrypts:
  assumes "authEncrypt prim tbl self m = Inr c"
  shows "\<exists>b e. encodeUtf8 (pm_body m) = Inr b
           \<and> encryptRaw prim (rawBody tbl (pm_parents m) b) (ss_groupKey (greetStore self))
                 (paddingSize self) = Inr e"
proof -
  from assms obtain b where b: "encodeUtf8 (pm_body m) = Inr b"
    by (cases "encodeUtf8 (pm_body m)")
      (auto simp: authEncrypt_def Let_def ebind_def assert_def split: if_splits)
  with assms obtain e where
    "encryptRaw prim (rawBody tbl (pm_parents m) b) (ss_groupKey (greetStore self))
       (paddingSize self) = Inr e"
    by (cases "encryptRaw prim (rawBody tbl (pm_parents m) b) (ss_groupKey (greetStore self))
                 (paddingSize self)")
      (auto simp: authEncrypt_def Let_def ebind_def assert_def split: if_splits)
  with b show ?thesis
    by blast
qed

text \<open>
  Claim C10.  \<open>_encryptRaw\<close> throws on a record stream of 65535 bytes or more, and so
  does \<open>authEncrypt\<close> when the parent records and the body record make up such a
  stream.  On a shorter stream \<open>_encryptRaw\<close> either cannot build the padding or calls
  the cipher on data that begins with two bytes which \<open>_bin2short\<close> reads back as the
  length of the stream, followed by the stream and zero bytes; \<open>_decryptRaw\<close> then
  returns the stream from what a cipher that undoes its encryption gives, and an
  \<open>authEncrypt\<close> that returns has made such a call for its record stream.
\<close>

theorem authEncrypt_length_prefix:
  "(65535 \<le> length d \<longrightarrow>
      encryptRaw prim d key P
        = Inl (AssertionError ''Message size too large for encryption scheme.''))
   \<and> (encodeUtf8 (pm_body m) = Inr b \<and> 65535 \<le> length (rawBody tbl (pm_parents m) b)
        \<longrightarrow> (\<exists>e. authEncrypt prim tbl self m = Inl e))
   \<and> (length d < 65535 \<longrightarrow>
        encryptRaw prim d key P = Inl RangeError
        \<or> (\<exists>z. encryptRaw prim d key P
                 = ebind (AES_CTR_encrypt prim (short2bin (length d) @ d @ replicate z 0) key
                            (randomString prim 12 @ [0, 0, 0, 0]))
                     (\<lambda>x. Inr \<lparr>enc_data = x, enc_iv = randomString prim 12\<rparr>)
               \<and> bin2short (take 2 (short2bin (length d) @ d @ replicate z 0)) = length d))
   \<and> (length d < 65535 \<and> encryptRaw prim d key P = Inr e
        \<and> length (randomString prim 12) \<le> 12
        \<and> (\<forall>D x. AES_CTR_encrypt prim D key (randomString prim 12 @ [0, 0, 0, 0]) = Inr x
                 \<longrightarrow> AES_CTR_decrypt prim x key (randomString prim 12 @ [0, 0, 0, 0]) = Inr D)
        \<longrightarrow> decryptRaw prim (enc_data e) key (enc_iv e) = Inr d)
   \<and> (authEncrypt prim tbl self m = Inr c \<longrightarrow>
        (\<exists>s z x. encodeUtf8 (pm_body m) = Inr s
           \<and> length (rawBody tbl (pm_parents m) s) < 65535
           \<and> AES_CTR_encrypt prim
                 (short2bin (length (rawBody tbl (pm_parents m) s))
                    @ rawBody tbl (pm_parents m) s @ replicate z 0)
                 (ss_groupKey (greetStore self)) (randomString prim 12 @ [0, 0, 0, 0]) = Inr x
           \<and> bin2short (take 2 (short2bin (length (rawBody tbl (pm_parents m) s))
                                   @ rawBody tbl (pm_parents m) s @ replicate z 0))
               = length (rawBody tbl (pm_parents m) s)))"
proof (intro conjI impI)
  assume "65535 \<le> length d"
  then show "encryptRaw prim d key P
               = Inl (AssertionError ''Message size too large for encryption scheme.'')"
    by (simp add: encryptRaw_def encryptRawArguments_too_large ebind_def)
next
  assume "encodeUtf8 (pm_body m) = Inr b \<and> 65535 \<le> length (rawBody tbl (pm_parents m) b)"
  then have "encodeUtf8 (pm_body m) = Inr b"
    and "65535 \<le> length (rawBody tbl (pm_parents m) b)"
    by simp_all
  then show "\<exists>e. authEncrypt prim tbl self m = Inl e"
    by (rule authEncrypt_too_large)
next
  assume d: "length d < 65535"
  from encryptRaw_shape [OF d, of prim key P] prefix_exact [OF d]
  show "encryptRaw prim d key P = Inl RangeError
        \<or> (\<exists>z. encryptRaw prim d key P
                 = ebind (AES_CTR_encrypt prim (short2bin (length d) @ d @ replicate z 0) key
                            (randomString prim 12 @ [0, 0, 0, 0]))
                     (\<lambda>x. Inr \<lparr>enc_data = x, enc_iv = randomString prim 12\<rparr>)
               \<and> bin2short (take 2 (short2bin (length d) @ d @ replicate z 0)) = length d)"
    by blast
next
  assume h: "length d < 65535 \<and> encryptRaw prim d key P = Inr e
        \<and> length (randomString prim 12) \<le> 12
        \<and> (\<forall>D x. AES_CTR_encrypt prim D key (randomString prim 12 @ [0, 0, 0, 0]) = Inr x
                 \<longrightarrow> AES_CTR_decrypt prim x key (randomString prim 12 @ [0, 0, 0, 0]) = Inr D)"
  then have d: "length d < 65535" and e: "encryptRaw prim d key P = Inr e"
    and n: "take 12 (randomString prim 12) = randomString prim 12"
    and inv: "\<And>D x. AES_CTR_encrypt prim D key (randomString prim 12 @ [0, 0, 0, 0]) = Inr x
                 \<Longrightarrow> AES_CTR_decrypt prim x key (randomString prim 12 @ [0, 0, 0, 0]) = Inr D"
    by simp_all
  from encryptRaw_shape [OF d, of prim key P] e obtain z where
    z: "ebind (AES_CTR_encrypt prim (short2bin (length d) @ d @ replicate z 0) key
                 (randomString prim 12 @ [0, 0, 0, 0]))
          (\<lambda>x. Inr \<lparr>enc_data = x, enc_iv = randomString prim 12\<rparr>) = Inr e"
    by auto
  then obtain x where x: "AES_CTR_encrypt prim (short2bin (length d) @ d @ replicate z 0) key
                 (randomString prim 12 @ [0, 0, 0, 0]) = Inr x"
    and ex: "enc_data e = x" "enc_iv e = randomString prim 12"
    by (cases "AES_CTR_encrypt prim (short2bin (length d) @ d @ replicate z 0) key
                 (randomString prim 12 @ [0, 0, 0, 0])") (auto simp: ebind_def)
  from inv [OF x] have "AES_CTR_decrypt prim (enc_data e) key (take 12 (enc_iv e) @ [0, 0, 0, 0])
      = Inr (short2bin (length d) @ d @ replicate z 0)"
    by (simp only: ex n)
  with d show "decryptRaw prim (enc_data e) key (enc_iv e) = Inr d"
    by (rule decryptRaw_padded)
next
  assume "authEncrypt prim tbl self m = Inr c"
  then obtain s e where s: "encodeUtf8 (pm_body m) = Inr s"
    and e: "encryptRaw prim (rawBody tbl (pm_parents m) s) (ss_groupKey (greetStore self))
              (paddingSize self) = Inr e"
    using authEncrypt_encrypts by blast
  let ?d = "rawBody tbl (pm_parents m) s"
  have d: "length ?d < 65535"
  proof (rule ccontr)
    assume "\<not> length ?d < 65535"
    then have "encryptRaw prim ?d (ss_groupKey (greetStore self)) (paddingSize self)
                 = Inl (AssertionError ''Message size too large for encryption scheme.'')"
      by (simp add: encryptRaw_def encryptRawArguments_too_large ebind_def)
    with e show False
      by simp
  qed
  from encryptRaw_shape [OF d, of prim "ss_groupKey (greetStore self)" "paddingSize self"] e
  obtain z where
    "ebind (AES_CTR_encrypt prim (short2bin (length ?d) @ ?d @ replicate z 0)
              (ss_groupKey (greetStore self)) (randomString prim 12 @ [0, 0, 0, 0]))
       (\<lambda>x. Inr \<lparr>enc_data = x, enc_iv = randomString prim 12\<rparr>) = Inr e"
    by auto
  then obtain x where "AES_CTR_encrypt prim (short2bin (length ?d) @ ?d @ replicate z 0)
              (ss_groupKey (greetStore self)) (randomString prim 12 @ [0, 0, 0, 0]) = Inr x"
    by (cases "AES_CTR_encrypt prim (short2bin (length ?d) @ ?d @ replicate z 0)
              (ss_groupKey (greetStore self)) (randomString prim 12 @ [0, 0, 0, 0])")
      (auto simp: ebind_def)
  with s d prefix_exact [OF d, of z]
  show "\<exists>s z x. encodeUtf8 (pm_body m) = Inr s
           \<and> length (rawBody tbl (pm_parents m) s) < 65535
           \<and> AES_CTR_encrypt prim
                 (short2bin (length (rawBody tbl (pm_parents m) s))
                    @ rawBody tbl (pm_parents m) s @ replicate z 0)
                 (ss_groupKey (greetStore self)) (randomString prim 12 @ [0, 0, 0, 0]) = Inr x
           \<and> bin2short (take 2 (short2bin (length (rawBody tbl (pm_parents m) s))
                                   @ rawBody tbl (pm_parents m) s @ replicate z 0))
               = length (rawBody tbl (pm_parents m) s)"
    by blast
qed

text \<open>With the group key of 32 octets of the example session, the key handed to the
  cipher has 32 octets and is not the first 16 of them.\<close>

theorem authEncrypt_aes_arguments_witness:
  "\<exists>b a. encodeUtf8 (pm_body exampleMessage) = Inr b
     \<and> encryptRawArguments examplePrimitives (rawBody exampleTable (pm_parents exampleMessage) b)
           (ss_groupKey exampleStore) 0 = Inr a
     \<and> aes_key a = [0 ..< 32]
     \<and> length (aes_key a) = 32
     \<and> aes_key a \<noteq> take 16 (ss_groupKey exampleStore)
     \<and> aes_counter a = replicate 12 114 @ [0, 0, 0, 0]"
proof -
  obtain c where "authEncrypt examplePrimitives exampleTable
         \<lparr>greetStore = exampleStore, paddingSize = 0\<rparr> exampleMessage = Inr c"
    using example_returns by blast
  from authEncrypt_aes_arguments [OF this] obtain b a where
    "encodeUtf8 (pm_body exampleMessage) = Inr b"
    "encryptRawArguments examplePrimitives (rawBody exampleTable (pm_parents exampleMessage) b)
       (ss_groupKey exampleStore) 0 = Inr a"
    "aes_key a = ss_groupKey exampleStore"
    "aes_counter a = randomString examplePrimitives 12 @ [0, 0, 0, 0]"
    by (elim exE conjE) simp
  moreover have "ss_groupKey exampleStore = [0 ..< 32]"
    by (simp add: exampleStore_def)
  moreover have "length [0 ..< 32::nat] = 32" "[0 ..< 32::nat] \<noteq> take 16 [0 ..< 32]"
    by (simp_all add: list_eq_iff_nth_eq)
  moreover have "randomString examplePrimitives 12 = replicate 12 114"
    by (simp add: examplePrimitives_def)
  ultimately show ?thesis
    by (intro exI [of _ b] exI [of _ a]) simp
qed



subsection \<open>Evaluation with the example cipher\<close>

lemma exampleCipher_call:
  "AES_CTR_encrypt examplePrimitives D k ctr = exampleCipher D k ctr"
  "AES_CTR_decrypt examplePrimitives D k ctr = exampleCipher D k ctr"
  "randomString examplePrimitives n = replicate n 114"
  by (simp_all add: examplePrimitives_def)

lemma exampleCipher_inverse:
  assumes "exampleCipher D k ctr = Inr x"
  shows "exampleCipher x k' ctr' = Inr D"
proof -
  from assms have D: "isBinary D" and x: "x = map (\<lambda>c. 255 - c) D"
    by (auto simp: exampleCipher_def split: if_splits)
  have "255 - c < 256" for c :: nat
    by simp
  then have "isBinary x"
    unfolding x by (simp add: isBinary_def list_all_iff)
  moreover have "map (\<lambda>c. 255 - c) x = D"
    using D unfolding x by (induction D) (simp_all add: isBinary_def)
  ultimately show ?thesis
    by (simp add: exampleCipher_def)
qed

theorem encryptRaw_padded_length_witness:
  "encryptRaw examplePrimitives (ascii ''abc'') [] 4
     = Inr \<lparr>enc_data = [255, 252, 158, 157, 156, 255, 255, 255], enc_iv = replicate 12 114\<rparr>
   \<and> encryptRaw examplePrimitives (ascii ''abc'') [] 0
       = Inr \<lparr>enc_data = [255, 252, 158, 157, 156], enc_iv = replicate 12 114\<rparr>"
proof -
  have d: "length (ascii ''abc'') < 65535" "length (ascii ''abc'') = 3"
    by (simp_all add: ascii_def)
  note claim = encryptRaw_padded_length [OF d(1), of 4 examplePrimitives "[]"]
  have "0 < (4::int) \<and> (4::int) \<le> int maxStringLength"
    by (simp add: maxStringLength_def)
  from mp [OF conjunct1 [OF claim] this]
  obtain z where call: "encryptRaw examplePrimitives (ascii ''abc'') [] 4
      = ebind (AES_CTR_encrypt examplePrimitives
                 (short2bin (length (ascii ''abc'')) @ ascii ''abc'' @ replicate z 0) []
                 (randomString examplePrimitives 12 @ [0, 0, 0, 0]))
          (\<lambda>x. Inr \<lparr>enc_data = x, enc_iv = randomString examplePrimitives 12\<rparr>)"
    and len: "int (length (short2bin (length (ascii ''abc'')) @ ascii ''abc'' @ replicate z 0))
                = 4 * 2 ^ nat \<lceil>log 2 (real_of_int \<lceil>real (length (ascii ''abc'') + 2) / real_of_int 4\<rceil>)\<rceil>"
    by (elim exE conjE)
  have "\<lceil>real (length (ascii ''abc'') + 2) / real_of_int 4\<rceil> = 2"
    unfolding d(2) by (rule ceiling_unique) simp_all
  with len
  have "int (length (short2bin (length (ascii ''abc'')) @ ascii ''abc'' @ replicate z 0))
               = 4 * 2 ^ nat \<lceil>log 2 (real_of_int 2)\<rceil>"
    by (simp only:)
  then have "int (length (short2bin (length (ascii ''abc'')) @ ascii ''abc'' @ replicate z 0)) = 8"
    by simp
  then have "z = 3"
    by (simp add: length_short2bin d(2))
  moreover have "(3::nat) = Suc (Suc (Suc 0))"
    by simp
  then have "replicate 3 (0::nat) = [0, 0, 0]"
    by (simp only: replicate.simps)
  ultimately have "short2bin (length (ascii ''abc'')) @ ascii ''abc'' @ replicate z 0
                     = [0, 3, 97, 98, 99, 0, 0, 0]"
    by (simp add: ascii_def short2bin_small)
  with call have padded: "encryptRaw examplePrimitives (ascii ''abc'') [] 4
     = Inr \<lparr>enc_data = [255, 252, 158, 157, 156, 255, 255, 255], enc_iv = replicate 12 114\<rparr>"
    by (simp add: exampleCipher_call exampleCipher_def isBinary_def ebind_def)
  have "short2bin (length (ascii ''abc'')) @ ascii ''abc'' = [0, 3, 97, 98, 99]"
    by (simp add: ascii_def short2bin_small)
  with conjunct2 [OF claim] have "encryptRaw examplePrimitives (ascii ''abc'') [] 0
       = Inr \<lparr>enc_data = [255, 252, 158, 157, 156], enc_iv = replicate 12 114\<rparr>"
    by (simp add: exampleCipher_call exampleCipher_def isBinary_def ebind_def)
  with padded show ?thesis
    by (rule conjI)
qed

text \<open>For the padding size \<open>2^32\<close>, \<open>paddingSize | 0\<close> is 0 and nothing is appended: the
  cipher gets the two bytes of the prefix of an empty stream.  For the padding size
  \<open>2^29\<close> the padded string would be longer than the engine allows.\<close>

theorem encryptRaw_padding_size_truncated:
  "encryptRaw examplePrimitives [] [] 4294967296
     = Inr \<lparr>enc_data = [255, 255], enc_iv = replicate 12 114\<rparr>
   \<and> encryptRawArguments examplePrimitives [] [] 4294967296
       = Inr \<lparr>aes_data = [0, 0], aes_key = [],
              aes_counter = replicate 12 114 @ [0, 0, 0, 0]\<rparr>
   \<and> int (length [0::nat, 0])
       \<noteq> 4294967296
           * 2 ^ nat \<lceil>log 2 (real_of_int \<lceil>real (length ([]::jsstring) + 2)
                                            / real_of_int 4294967296\<rceil>)\<rceil>
   \<and> encryptRaw examplePrimitives [] [] 536870912 = Inl RangeError"
proof -
  have "toInt32 4294967296 = 0"
    by (simp add: toInt32_def)
  then have args: "encryptRawArguments examplePrimitives [] [] 4294967296 =
      Inr \<lparr>aes_data = short2bin (length ([]::jsstring)) @ [], aes_key = [],
           aes_counter = randomString examplePrimitives 12 @ [0, 0, 0, 0]\<rparr>"
    by (intro encryptRawArguments_unpadded) simp_all
  from encryptRaw_cipher [OF args]
  have call: "encryptRaw examplePrimitives [] [] 4294967296
     = Inr \<lparr>enc_data = [255, 255], enc_iv = replicate 12 114\<rparr>"
    by (simp add: exampleCipher_call exampleCipher_def isBinary_def ebind_def short2bin_small)
  have neq: "(2::int) < 4294967296 * 2 ^ n" for n :: nat
  proof -
    have "(1::int) \<le> 2 ^ n" by simp
    then have "(4294967296::int) * 1 \<le> 4294967296 * 2 ^ n"
      by (intro mult_left_mono) simp_all
    then show ?thesis by linarith
  qed
  have "toInt32 536870912 = 536870912"
    by (intro toInt32_id) simp_all
  moreover have "ceilDiv 2 536870912 = 1"
    by (simp add: ceilDiv_def)
  moreover have "sint (shl1 (int 0)) = 2 ^ 0"
    by (rule shl1_small) simp
  ultimately have "encryptRawArguments examplePrimitives [] [] 536870912 = Inl RangeError"
    by (simp add: encryptRawArguments_def assert_def ebind_def Let_def paddedData_def
        length_short2bin maxStringLength_def)
  then have limit: "encryptRaw examplePrimitives [] [] 536870912 = Inl RangeError"
    by (simp add: encryptRaw_def ebind_def)
  from args call neq limit show ?thesis
    by (simp add: short2bin_small less_imp_neq exampleCipher_call)
qed

theorem authEncrypt_length_prefix_witness:
  "encryptRaw examplePrimitives (replicate 65535 0) [] 0
     = Inl (AssertionError ''Message size too large for encryption scheme.'')
   \<and> (\<exists>e. authEncrypt examplePrimitives exampleTable
              \<lparr>greetStore = exampleStore, paddingSize = 0\<rparr>
              (exampleMessage\<lparr>pm_parents := [], pm_body := replicate 65531 97\<rparr>) = Inl e)
   \<and> encryptRaw examplePrimitives (ascii ''abc'') [] 16
       = Inr \<lparr>enc_data = [255, 252, 158, 157, 156] @ replicate 11 255,
              enc_iv = replicate 12 114\<rparr>
   \<and> decryptRaw examplePrimitives ([255, 252, 158, 157, 156] @ replicate 11 255) []
         (replicate 12 114) = Inr (ascii ''abc'')"
proof (intro conjI)
  show "encryptRaw examplePrimitives (replicate 65535 0) [] 0
          = Inl (AssertionError ''Message size too large for encryption scheme.'')"
    using authEncrypt_length_prefix
      [where d = "replicate 65535 0" and prim = examplePrimitives and key = "[]" and P = 0]
    by simp
  have "encodeUtf8 (replicate 65531 97) = Inr (replicate 65531 97)"
    by (intro encodeUtf8_ascii) (simp add: list_all_iff)
  then show "\<exists>e. authEncrypt examplePrimitives exampleTable
              \<lparr>greetStore = exampleStore, paddingSize = 0\<rparr>
              (exampleMessage\<lparr>pm_parents := [], pm_body := replicate 65531 97\<rparr>) = Inl e"
    using authEncrypt_length_prefix
      [where m = "exampleMessage\<lparr>pm_parents := [], pm_body := replicate 65531 97\<rparr>"
         and b = "replicate 65531 97" and tbl = exampleTable and prim = examplePrimitives
         and self = "\<lparr>greetStore = exampleStore, paddingSize = 0\<rparr>"]
    by (simp add: rawBody_def encodeTLV_def length_short2bin)
  have d: "length (ascii ''abc'') < 65535"
    by (simp add: ascii_def)
  have "ceilDiv (length (ascii ''abc'') + 2) (nat 16) = 1"
    by (simp add: ceilDiv_def ascii_def)
  then have "encryptRawArguments examplePrimitives (ascii ''abc'') [] 16
      = Inr \<lparr>aes_data = short2bin (length (ascii ''abc'')) @ ascii ''abc'' @ replicate 11 0,
             aes_key = [], aes_counter = randomString examplePrimitives 12 @ [0, 0, 0, 0]\<rparr>"
    using encryptRawArguments_padded [OF d, of 16 examplePrimitives "[]"]
    by (simp add: maxStringLength_def ascii_def)
  from encryptRaw_cipher [OF this]
  show e: "encryptRaw examplePrimitives (ascii ''abc'') [] 16
       = Inr \<lparr>enc_data = [255, 252, 158, 157, 156] @ replicate 11 255,
              enc_iv = replicate 12 114\<rparr>"
    by (simp add: exampleCipher_call exampleCipher_def isBinary_def ebind_def short2bin_small
        ascii_def list_all_iff)
  have "\<forall>D x. AES_CTR_encrypt examplePrimitives D []
                 (randomString examplePrimitives 12 @ [0, 0, 0, 0]) = Inr x
          \<longrightarrow> AES_CTR_decrypt examplePrimitives x []
                 (randomString examplePrimitives 12 @ [0, 0, 0, 0]) = Inr D"
    by (auto simp: exampleCipher_call dest: exampleCipher_inverse)
  moreover have "length (randomString examplePrimitives 12) \<le> 12"
    by (simp add: exampleCipher_call)
  ultimately show "decryptRaw examplePrimitives ([255, 252, 158, 157, 156] @ replicate 11 255) []
         (replicate 12 114) = Inr (ascii ''abc'')"
    using d e
      conjunct1 [OF conjunct2 [OF conjunct2 [OF conjunct2 [OF authEncrypt_length_prefix
        [where d = "ascii ''abc''" and prim = examplePrimitives and key = "[]" and P = 16
           and e = "\<lparr>enc_data = [255, 252, 158, 157, 156] @ replicate 11 255,
                        enc_iv = replicate 12 114\<rparr>"]]]]]
    by simp
qed

section \<open>Signing keys in outgoing packets\<close>




lemma strOrNull_idem: "strOrNull (strOrNull s) = strOrNull s"
  by (simp add: strOrNull_def split: option.splits)





























end
